theory Spec2Isabelle
  imports Complex_Main "HOL-Library.AList" "HOL-Library.Char_ord" "HOL-Library.List_Lexorder"
begin

section \<open>Values shared by Layer, Route and Router\<close>

text \<open>
  A continuation is called with no argument or with a signal. \<open>None\<close> is the call
  without argument; the source tests a signal for truthiness before comparing it, and the
  empty string is the one falsy string.
\<close>

type_synonym signal = "string option"

definition truthy :: "signal \<Rightarrow> bool" where
  "truthy s = (s \<noteq> None \<and> s \<noteq> Some [])"

text \<open>
  \<open>URIError\<close> carries the message and the status that \<open>decode_param\<close> attaches,
  \<open>TypeError\<close> and \<open>Error\<close> their message; \<open>HandlerError\<close> is an exception raised
  by user code.
\<close>

datatype error = URIError string nat | TypeError string | Error string | HandlerError string

text \<open>
  What a handler does with its continuation: it calls it (once, with a signal or none),
  it returns without calling it, or it throws.
\<close>

datatype outcome = Next signal | NoNext | Throw error

text \<open>
  Property keys of a params object. A key that is a canonical array index (as the keys
  \<open>0\<close>, \<open>1\<close>, ... of unnamed captures are) is \<open>Idx n\<close>; any other key is \<open>Name s\<close>.
  A params object is an association list in insertion order, read with \<open>map_of\<close>; the
  value \<open>None\<close> is a property that is present and holds \<open>undefined\<close>.
\<close>

datatype pkey = Idx nat | Name string

type_synonym pval = "string option"
type_synonym params = "(pkey \<times> pval) list"

definition has_key :: "params \<Rightarrow> pkey \<Rightarrow> bool" where
  "has_key ps k = (map_of ps k \<noteq> None)"

text \<open>
  The values a declared query condition can hold besides strings, arrays, regular
  expressions and functions, and the values \<open>JSON.parse\<close> gives. A finite number is the
  rational it denotes (\<open>0\<close> and \<open>-0\<close> are one value, as they are for \<open>===\<close>);
  \<open>JInfinity\<close> carries the sign (\<open>True\<close> for positive); \<open>JObject\<close> is any object.
\<close>

datatype jsval =
    JUndefined | JNull | JBool bool | JNum rat | JNaN | JInfinity bool | JStr string | JObject

text \<open>Strict equality \<open>===\<close>: two objects met here are never the same reference, and
  \<open>NaN\<close> equals nothing.\<close>

definition strict_eq :: "jsval \<Rightarrow> jsval \<Rightarrow> bool" where
  "strict_eq a b = (a = b \<and> a \<noteq> JObject \<and> a \<noteq> JNaN)"

text \<open>
  The declared value of one query key, by the type tests of the \<open>query\<close> setter:
  a string, a regular expression, an array, a function, or anything else. A regular
  expression is whether its \<open>exec\<close> finds a match in the subject string; it is one
  without the \<open>g\<close> and \<open>y\<close> flags, whose \<open>exec\<close> keeps no position between calls. A
  function is what it does when called with the actual value: it throws, or it returns
  a value, of which the truthiness is kept.
\<close>

datatype qexpect =
    QString string
  | QRegExp "string \<Rightarrow> bool"
  | QArray "jsval list"
  | QFunction "string option \<Rightarrow> error + bool"
  | QOther jsval

text \<open>A query mapping with strings as values; a missing key reads as \<open>undefined\<close>
  (\<open>None\<close>). Where a query is an argument, \<open>None\<close> of \<open>query option\<close> is the argument
  \<open>undefined\<close> or \<open>null\<close>.\<close>

type_synonym query = "string \<Rightarrow> string option"

text \<open>
  What the engine does that a caller can observe besides its result: a function-valued
  query predicate called with an actual value, a handler invoked (by the layer's name), a
  parameter callback invoked (name, value, position in the callback list).
\<close>

datatype event =
    QueryPredicate string "string option"
  | Invoked string
  | ParamCallback pkey string nat

text \<open>
  Functions the source takes from the JavaScript runtime and from the libraries it
  requires: \<open>decodeURIComponent\<close> (\<open>None\<close> where it throws URIError), \<open>JSON.parse\<close>
  (\<open>None\<close> where it throws), the \<open>pathname\<close> of \<open>parseurl\<close> applied to the context's url
  (\<open>None\<close> where it is null or undefined, or where parseurl throws).
\<close>

record env =
  decodeURIComponent :: "string \<Rightarrow> string option"
  JSON_parse :: "string \<Rightarrow> jsval option"
  parseUrl_pathname :: "string \<Rightarrow> string option"

section \<open>Context and engine state\<close>

text \<open>
  The fields of the per-request context that the engine reads or writes. \<open>ctx_route\<close>
  holds the Route stored by the Router, identified by its path; \<open>ctx_next\<close> holds a
  continuation function, identified by a token; \<open>ctx_allow\<close> is the response header
  written by \<open>ctx.set('Allow', ...)\<close>. The query is the object that the getter
  \<open>ctx.query\<close> gives, which is always present, and its values are strings.
\<close>

datatype cont = Given nat | RouterNext nat

record ctx =
  ctx_method :: string
  ctx_url :: string
  ctx_query :: query
  ctx_params :: "params option"
  ctx_baseUrl :: "string option"
  ctx_originalUrl :: "string option"
  ctx_route :: "string option"
  ctx_next :: "cont option"
  ctx_allow :: "string option"
  ctx_body :: "string option"

text \<open>
  The state the engine threads through one dispatch: the context, the events so far, and
  the number of \<open>router_next\<close> closures created so far (each call of \<open>Router.handle\<close>
  creates one and stores it in \<open>ctx.next\<close>).
\<close>

record state =
  ctx :: ctx
  log :: "event list"
  closures :: nat

text \<open>
  A handler function, with its declared parameter count \<open>fn.length\<close>. A user middleware
  acts on the context and then calls its continuation at most once, as the last thing it
  does; what it does after the continuation returns is not modelled. The functions the
  engine itself builds (\<open>route.dispatch.bind(route)\<close>, the function exported by
  \<open>router.routes()\<close>) act on the whole state.
\<close>

datatype handler =
    Middleware nat "ctx \<Rightarrow> ctx \<times> outcome"
  | Engine nat "state \<Rightarrow> state \<times> outcome"

section \<open>Layer\<close>

text \<open>
  The fields of a Layer. The compiled pattern (\<open>regexp\<close>, with \<open>keys\<close>) comes from
  path-to-regexp: \<open>exec\<close> gives \<open>None\<close> for null, or the matched text \<open>match[0]\<close> with the
  captures \<open>match[1..]\<close>, each a string or undefined. \<open>_query\<close> is the declared condition
  after the \<open>query\<close> setter: \<open>None\<close> for undefined, otherwise the keys with their values in
  the order of \<open>Object.keys\<close>; \<open>queryKeys\<close> and \<open>queryCheckers\<close> are functions of it and
  are recomputed by \<open>queryMatch\<close> below. \<open>params\<close> and \<open>path\<close> are the scratch fields
  that \<open>match\<close> overwrites. The type of the Route that a layer owns is a parameter: a
  Route is a list of layers itself, and its layers own none.
\<close>

record 'r layer =
  layer_method :: "string option"
  layer_handle :: handler
  layer_name :: string
  layer_params :: "params option"
  layer_path :: "string option"
  layer_query :: "(string \<times> qexpect) list option"
  layer_route :: "'r option"
  layer_regexp :: "string \<Rightarrow> (string \<times> string option list) option"
  layer_keys :: "pkey list"
  fast_star :: bool
  fast_slash :: bool

text \<open>The \<open>query\<close> setter: a falsy value or an object without keys is stored as undefined.\<close>

definition set_query :: "(string \<times> qexpect) list option \<Rightarrow> 'r layer \<Rightarrow> 'r layer" where
  "set_query newQuery L =
     (case newQuery of
        None \<Rightarrow> L\<lparr>layer_query := None\<rparr>
      | Some kvs \<Rightarrow> if kvs = [] then L\<lparr>layer_query := None\<rparr> else L\<lparr>layer_query := Some kvs\<rparr>)"

text \<open>The subject of \<open>RegExp.exec\<close> and of \<open>JSON.parse\<close> is the argument converted to a
  string.\<close>

definition to_string :: "string option \<Rightarrow> string" where
  "to_string actual = (case actual of None \<Rightarrow> ''undefined'' | Some s \<Rightarrow> s)"

definition to_jsval :: "string option \<Rightarrow> jsval" where
  "to_jsval actual = (case actual of None \<Rightarrow> JUndefined | Some s \<Rightarrow> JStr s)"

text \<open>The checker that the setter installs for a key, applied to the declared and the
  actual value: what it returns (as a condition) or throws, and the calls of a
  function-valued condition that it made. Only a function-valued condition can throw.\<close>

fun checker :: "env \<Rightarrow> string \<Rightarrow> qexpect \<Rightarrow> string option \<Rightarrow> (error + bool) \<times> event list" where
  "checker env key (QString expected) actual = (Inr (actual = Some expected), [])"
| "checker env key (QRegExp expected) actual = (Inr (expected (to_string actual)), [])"
| "checker env key (QArray expected) actual =
     (Inr (\<exists>x \<in> set expected. strict_eq x (to_jsval actual)), [])"
| "checker env key (QFunction expected) actual = (expected actual, [QueryPredicate key actual])"
| "checker env key (QOther expected) actual =
     (case JSON_parse env (to_string actual) of
        None \<Rightarrow> (Inr False, [])
      | Some v \<Rightarrow> (Inr (strict_eq expected v), []))"

text \<open>\<open>Array.prototype.every\<close> over the declared keys: stops at the first failure, and
  at the first checker that throws.\<close>

fun every_key :: "env \<Rightarrow> (string \<times> qexpect) list \<Rightarrow> query \<Rightarrow> (error + bool) \<times> event list" where
  "every_key env [] actualQuery = (Inr True, [])"
| "every_key env ((key, expected) # rest) actualQuery =
     (case checker env key expected (actualQuery key) of
        (Inl e, evs) \<Rightarrow> (Inl e, evs)
      | (Inr ok, evs) \<Rightarrow>
          if ok then (case every_key env rest actualQuery of (r, evs') \<Rightarrow> (r, evs @ evs'))
          else (Inr False, evs))"

text \<open>
  \<open>Layer.queryMatch\<close>. Without a declared condition it is true, whatever the
  argument. With one, the callback of \<open>every\<close> reads \<open>actualQuery[key]\<close> for the first
  declared key, which throws when the argument is undefined or null.
\<close>

definition queryMatch :: "env \<Rightarrow> 'r layer \<Rightarrow> query option \<Rightarrow> (error + bool) \<times> event list" where
  "queryMatch env L actualQuery =
     (case layer_query L of
        None \<Rightarrow> (Inr True, [])
      | Some kvs \<Rightarrow>
          (case actualQuery of
             None \<Rightarrow>
               if kvs = [] then (Inr True, [])
               else (Inl (TypeError ''Cannot read property of undefined''), [])
           | Some q \<Rightarrow> every_key env kvs q))"

definition decode_param :: "env \<Rightarrow> string option \<Rightarrow> error + string option" where
  "decode_param env val =
     (case val of
        None \<Rightarrow> Inr None
      | Some s \<Rightarrow>
          if s = [] then Inr (Some s)
          else (case decodeURIComponent env s of
                  Some d \<Rightarrow> Inr (Some d)
                | None \<Rightarrow> Inl (URIError (''Failed to decode param '' @ [CHR 0x27] @ s @ [CHR 0x27]) 400)))"

text \<open>
  The loop of \<open>match\<close> over \<open>match[1..]\<close> and \<open>keys\<close>. Reading \<open>key.name\<close> of a missing
  key throws; a decoding failure throws with the params stored so far left in place.
  For a key named \<open>__proto__\<close> the object never has an own property, and assigning a
  string or undefined to it adds none.
\<close>

fun store_values :: "env \<Rightarrow> pkey list \<Rightarrow> string option list \<Rightarrow> params \<Rightarrow> error option \<times> params" where
  "store_values env ks [] ps = (None, ps)"
| "store_values env [] (c # cs) ps =
     (Some (TypeError ''Cannot read property name of undefined''), ps)"
| "store_values env (prop # ks) (c # cs) ps =
     (case decode_param env c of
        Inl e \<Rightarrow> (Some e, ps)
      | Inr val \<Rightarrow>
          store_values env ks cs
            (if prop = Name ''__proto__'' then ps
             else if val \<noteq> None \<or> \<not> has_key ps prop then AList.update prop val ps
             else ps))"

text \<open>
  \<open>Layer.match\<close>. The result is what the call returns or throws, the layer with its
  \<open>params\<close> and \<open>path\<close> as the call leaves them, and the predicate calls made. A null
  path is \<open>None\<close>. The query condition is evaluated first; when it throws, nothing
  else is done.
\<close>

definition match :: "env \<Rightarrow> 'r layer \<Rightarrow> string option \<Rightarrow> query option
    \<Rightarrow> (error + bool) \<times> 'r layer \<times> event list" where
  "match env L path actualQuery =
     (case queryMatch env L actualQuery of
        (Inl e, evs) \<Rightarrow> (Inl e, L, evs)
      | (Inr queryMatched, evs) \<Rightarrow>
          (case path of
             None \<Rightarrow> (Inr False, L\<lparr>layer_params := None, layer_path := None\<rparr>, evs)
           | Some p \<Rightarrow>
               if fast_slash L then
                 (Inr queryMatched, L\<lparr>layer_params := Some [], layer_path := Some []\<rparr>, evs)
               else if fast_star L then
                 (case decode_param env (Some p) of
                    Inl e \<Rightarrow> (Inl e, L, evs)
                  | Inr v \<Rightarrow>
                      (Inr queryMatched,
                       L\<lparr>layer_params := Some [(Idx 0, v)], layer_path := Some p\<rparr>, evs))
               else
                 (case layer_regexp L p of
                    None \<Rightarrow> (Inr False, L\<lparr>layer_params := None, layer_path := None\<rparr>, evs)
                  | Some (m0, caps) \<Rightarrow>
                      (case store_values env (layer_keys L) caps [] of
                         (Some e, ps) \<Rightarrow>
                           (Inl e, L\<lparr>layer_params := Some ps, layer_path := Some m0\<rparr>, evs)
                       | (None, ps) \<Rightarrow>
                           (Inr queryMatched,
                            L\<lparr>layer_params := Some ps, layer_path := Some m0\<rparr>, evs)))))"

text \<open>
  \<open>Layer.handle_request\<close>: a function declaring more than three parameters is skipped
  and the continuation is called at once; any other is invoked. The result is the state
  the handler leaves and what it did with its continuation.
\<close>

definition handle_request :: "'r layer \<Rightarrow> state \<Rightarrow> state \<times> outcome" where
  "handle_request L st =
     (case layer_handle L of
        Middleware n f \<Rightarrow>
          if n > 3 then (st, Next None)
          else (case f (ctx st) of
                  (c, out) \<Rightarrow> (st\<lparr>ctx := c, log := log st @ [Invoked (layer_name L)]\<rparr>, out))
      | Engine n g \<Rightarrow>
          if n > 3 then (st, Next None)
          else g (st\<lparr>log := log st @ [Invoked (layer_name L)]\<rparr>))"

section \<open>Route\<close>

text \<open>
  \<open>String.prototype.toUpperCase\<close> and \<open>toLowerCase\<close> on the ASCII letters, which is
  what HTTP verbs and the keys of \<open>methods\<close> are made of; other characters are kept.
\<close>

definition toUpperCase_char :: "char \<Rightarrow> char" where
  "toUpperCase_char c =
     (case map_of (zip ''abcdefghijklmnopqrstuvwxyz'' ''ABCDEFGHIJKLMNOPQRSTUVWXYZ'') c of
        Some u \<Rightarrow> u
      | None \<Rightarrow> c)"

definition toLowerCase_char :: "char \<Rightarrow> char" where
  "toLowerCase_char c =
     (case map_of (zip ''ABCDEFGHIJKLMNOPQRSTUVWXYZ'' ''abcdefghijklmnopqrstuvwxyz'') c of
        Some l \<Rightarrow> l
      | None \<Rightarrow> c)"

definition toUpperCase :: "string \<Rightarrow> string" where
  "toUpperCase s = map toUpperCase_char s"

definition toLowerCase :: "string \<Rightarrow> string" where
  "toLowerCase s = map toLowerCase_char s"

text \<open>
  A Route: its path, its layers, and the object \<open>methods\<close> as the list of its keys in
  insertion order with their values. The layers of a Route own no Route themselves.
\<close>

record route =
  route_path :: string
  route_stack :: "unit layer list"
  route_methods :: "(string \<times> bool) list"

text \<open>
  The property names that a plain object inherits from \<open>Object.prototype\<close>. Each holds
  a function or an object there, so an object created as \<open>{}\<close> reads such a name as a
  truthy value when it has no own property of that name.
\<close>

definition Object_prototype :: "string list" where
  "Object_prototype =
     [''constructor'', ''__defineGetter__'', ''__defineSetter__'', ''hasOwnProperty'',
      ''__lookupGetter__'', ''__lookupSetter__'', ''isPrototypeOf'', ''propertyIsEnumerable'',
      ''toString'', ''valueOf'', ''__proto__'', ''toLocaleString'']"

text \<open>\<open>this.methods[name]\<close> read as a condition.\<close>

definition methods_flag :: "route \<Rightarrow> string \<Rightarrow> bool" where
  "methods_flag R name =
     (case map_of (route_methods R) name of
        Some b \<Rightarrow> b
      | None \<Rightarrow> name \<in> set Object_prototype)"

text \<open>\<open>Route._handles_method\<close>.\<close>

definition handles_method :: "route \<Rightarrow> string \<Rightarrow> bool" where
  "handles_method R method =
     (if methods_flag R ''_all'' then True
      else
        (let name = toLowerCase method;
             name = (if name = ''head'' \<and> \<not> methods_flag R ''head'' then ''get'' else name)
         in methods_flag R name))"

text \<open>\<open>Route._options\<close>: \<open>Object.keys(this.methods)\<close>, the automatic head appended, each
  entry made upper case.\<close>

definition options :: "route \<Rightarrow> string list" where
  "options R =
     (let methodsArr = map fst (route_methods R);
          methodsArr = (if methods_flag R ''get'' \<and> \<not> methods_flag R ''head''
                        then methodsArr @ [''head''] else methodsArr)
      in map toUpperCase methodsArr)"

text \<open>
  \<open>routeNext\<close> of \<open>Route.dispatch\<close>. The closure variable \<open>idx\<close> is the position in the
  stack, so the layers not yet visited are the list argument. The result is the state
  when the walk ends and what the walk does with the Route's own continuation \<open>next\<close>;
  a query condition that throws ends the walk.
\<close>

fun routeNext :: "env \<Rightarrow> unit layer list \<Rightarrow> string \<Rightarrow> signal \<Rightarrow> state \<Rightarrow> state \<times> outcome" where
  "routeNext env [] method signal st =
     (if truthy signal \<and> signal = Some ''route'' then (st, Next None)
      else if truthy signal \<and> signal = Some ''router'' then (st, Next signal)
      else (st, Next None))"
| "routeNext env (layer # rest) method signal st =
     (if truthy signal \<and> signal = Some ''route'' then (st, Next None)
      else if truthy signal \<and> signal = Some ''router'' then (st, Next signal)
      else if truthy (layer_method layer) \<and> layer_method layer \<noteq> Some method
        then routeNext env rest method None st
      else
        (case queryMatch env layer (Some (ctx_query (ctx st))) of
           (Inl e, evs) \<Rightarrow> (st\<lparr>log := log st @ evs\<rparr>, Throw e)
         | (Inr ok, evs) \<Rightarrow>
             if \<not> ok then routeNext env rest method None (st\<lparr>log := log st @ evs\<rparr>)
             else
               (case handle_request layer (st\<lparr>log := log st @ evs\<rparr>) of
                  (st', Next signal') \<Rightarrow> routeNext env rest method signal' st'
                | (st', NoNext) \<Rightarrow> (st', NoNext)
                | (st', Throw e) \<Rightarrow> (st', Throw e))))"

text \<open>\<open>Route.dispatch\<close>.\<close>

definition dispatch :: "env \<Rightarrow> route \<Rightarrow> state \<Rightarrow> state \<times> outcome" where
  "dispatch env R st =
     (if route_stack R = [] then (st, Next None)
      else
        (let method = toLowerCase (ctx_method (ctx st));
             method = (if method = ''head'' \<and> \<not> methods_flag R ''head'' then ''get'' else method)
         in routeNext env (route_stack R) method None st))"

section \<open>Parameter merging\<close>

text \<open>\<open>Object.assign(target, source)\<close>: every property of the source is written to the
  target. Only the mapping \<open>map_of\<close> of a params list is meaningful, not its order.\<close>

definition assign :: "params \<Rightarrow> params \<Rightarrow> params" where
  "assign target source = AList.merge target source"

text \<open>Reading a property: a missing one reads as undefined.\<close>

definition get_prop :: "params \<Rightarrow> pkey \<Rightarrow> pval" where
  "get_prop ps k = (case map_of ps k of None \<Rightarrow> None | Some v \<Rightarrow> v)"

text \<open>An index above every positional key of the object; it bounds the loops below.\<close>

definition idx_bound :: "params \<Rightarrow> nat" where
  "idx_bound ps = sum_list (map (\<lambda>kv. case fst kv of Idx n \<Rightarrow> Suc n | Name s \<Rightarrow> 0) ps)"

lemma has_key_idx_bound: "has_key ps (Idx i) \<Longrightarrow> i < idx_bound ps"
proof (induction ps)
  case Nil
  then show ?case by (simp add: has_key_def)
next
  case (Cons kv ps)
  show ?case
  proof (cases "fst kv = Idx i")
    case True
    then show ?thesis by (simp add: idx_bound_def)
  next
    case False
    with Cons.prems have "has_key ps (Idx i)"
      by (cases kv) (simp add: has_key_def)
    with Cons.IH have "i < idx_bound ps" .
    then show ?thesis by (simp add: idx_bound_def)
  qed
qed

text \<open>\<open>while (i in params) i += 1\<close>, started at \<open>i\<close>: the first index from \<open>i\<close> on that
  is not a key.\<close>

function first_gap :: "params \<Rightarrow> nat \<Rightarrow> nat" where
  "first_gap ps i = (if has_key ps (Idx i) then first_gap ps (Suc i) else i)"
  by pat_completeness auto
termination
  by (relation "measure (\<lambda>(ps, i). idx_bound ps - i)") (auto dest: has_key_idx_bound)

declare first_gap.simps [simp del]

text \<open>
  \<open>for (i -= 1; i >= 0; i -= 1) { params[i + o] = params[i]; if (i < o) delete params[i] }\<close>
  with the first argument the number of indices still to move, so the index moved next is
  one less.
\<close>

fun offset_indices :: "nat \<Rightarrow> nat \<Rightarrow> params \<Rightarrow> params" where
  "offset_indices 0 o' ps = ps"
| "offset_indices (Suc i) o' ps =
     offset_indices i o'
       (let ps' = AList.update (Idx (i + o')) (get_prop ps (Idx i)) ps
        in if i < o' then AList.delete (Idx i) ps' else ps')"

text \<open>
  \<open>mergeParams(params, parent)\<close> for a params object and a parent that is an object or
  undefined. The source renumbers \<open>params\<close> in place; the caller does not read the
  layer's params again, so only the returned object is kept.
\<close>

definition mergeParams :: "params \<Rightarrow> params option \<Rightarrow> params" where
  "mergeParams ps parent =
     (case parent of
        None \<Rightarrow> ps
      | Some par \<Rightarrow>
          if \<not> has_key ps (Idx 0) \<or> \<not> has_key par (Idx 0) then assign par ps
          else
            (let i = first_gap ps 0;
                 o' = first_gap par 0
             in assign par (offset_indices i o' ps)))"

section \<open>Router\<close>

text \<open>A parameter callback \<open>(ctx, next, paramVal, name)\<close>: what it does to the context and
  with its continuation.\<close>

type_synonym param_middleware = "ctx \<Rightarrow> string \<Rightarrow> pkey \<Rightarrow> ctx \<times> outcome"

record router =
  router_params :: "(pkey \<times> param_middleware list) list"
  caseSensitive :: bool
  router_mergeParams :: bool
  strict :: bool
  prefix :: "string option"
  router_stack :: "route layer list"

text \<open>An entry of the per-request memo \<open>paramcalled\<close>.\<close>

record called =
  called_signal :: signal
  called_match :: string
  called_value :: pval

text \<open>
  The variables that the closures of one \<open>handle\<close> call share, but for \<open>idx\<close>, which is
  the list of layers not yet visited. \<open>vals\<close> holds the saved \<open>baseUrl\<close>, \<open>params\<close> and
  \<open>next\<close>.
\<close>

record frame =
  removed :: string
  slashAdded :: bool
  protohost :: string
  paramcalled :: "(pkey \<times> called) list"
  frame_options :: "string list"
  parentParams :: "params option"
  parentUrl :: string
  vals :: "string option \<times> params option \<times> cont option"

text \<open>\<open>String.prototype.indexOf(sub, from)\<close>; \<open>None\<close> is \<open>-1\<close>.\<close>

fun index_at :: "string \<Rightarrow> string \<Rightarrow> nat \<Rightarrow> nat option" where
  "index_at sub [] i = (if sub = [] then Some i else None)"
| "index_at sub (c # cs) i =
     (if take (length sub) (c # cs) = sub then Some i else index_at sub cs (Suc i))"

definition indexOf :: "string \<Rightarrow> string \<Rightarrow> nat \<Rightarrow> nat option" where
  "indexOf s sub from = index_at sub (drop from s) (min from (length s))"

text \<open>\<open>getProtohost(url)\<close> for a string; \<open>None\<close> is undefined. When no slash follows the
  scheme, \<open>substr(0, -1)\<close> gives the empty string.\<close>

definition getProtohost :: "string \<Rightarrow> string option" where
  "getProtohost url =
     (if url = [] \<or> hd url = CHR ''/'' then None
      else
        (let pathLength = (case indexOf url ''?'' 0 of Some searchIndex \<Rightarrow> searchIndex
                           | None \<Rightarrow> length url)
         in case indexOf (take pathLength url) ''://'' 0 of
              None \<Rightarrow> None
            | Some fqdnIndex \<Rightarrow>
                (case indexOf url ''/'' (3 + fqdnIndex) of
                   Some j \<Rightarrow> Some (take j url)
                 | None \<Rightarrow> Some [])))"

definition getPathname :: "env \<Rightarrow> ctx \<Rightarrow> string option" where
  "getPathname env c = parseUrl_pathname env (ctx_url c)"

text \<open>\<open>appendMethods(list, addition)\<close>.\<close>

fun appendMethods :: "string list \<Rightarrow> string list \<Rightarrow> string list" where
  "appendMethods list [] = list"
| "appendMethods list (method # addition) =
     appendMethods (if method \<in> set list then list else list @ [method]) addition"

text \<open>\<open>Array.prototype.join(',')\<close>.\<close>

fun join :: "string list \<Rightarrow> string" where
  "join [] = []"
| "join [x] = x"
| "join (x # y # ys) = x @ '','' @ join (y # ys)"

definition setOptionsResponse :: "ctx \<Rightarrow> string list \<Rightarrow> ctx" where
  "setOptionsResponse c opts =
     (let body = join opts in c\<lparr>ctx_allow := Some body, ctx_body := Some body\<rparr>)"

text \<open>\<open>done\<close> of \<open>Router.handle\<close>: the automatic OPTIONS response, the saved fields
  restored, and the continuation \<open>next\<close> called without argument.\<close>

definition router_done :: "frame \<Rightarrow> state \<Rightarrow> state \<times> outcome" where
  "router_done fr st =
     (let c = ctx st;
          c = (if ctx_method c = ''OPTIONS'' \<and> frame_options fr \<noteq> []
               then setOptionsResponse c (frame_options fr) else c);
          c = (case vals fr of
                 (v0, v1, v2) \<Rightarrow> c\<lparr>ctx_baseUrl := v0, ctx_params := v1, ctx_next := v2\<rparr>)
      in (st\<lparr>ctx := c\<rparr>, Next None))"

text \<open>
  The \<open>while\<close> loop of \<open>router_next\<close> over the layers from \<open>idx\<close> on, for a path, the
  context's query and method. It ends with a matching layer (as \<open>match\<close> left it) and the
  layers after it, without one, or with what \<open>match\<close> threw; it gives the accumulated
  verbs and the predicate calls as well.
\<close>

datatype found = Found "route layer" "route layer list" | NotFound | Raised error

fun find_layer :: "env \<Rightarrow> string \<Rightarrow> query \<Rightarrow> string \<Rightarrow> route layer list \<Rightarrow> string list
    \<Rightarrow> string list \<times> event list \<times> found" where
  "find_layer env path q method [] opts = (opts, [], NotFound)"
| "find_layer env path q method (layer # stack) opts =
     (case match env layer (Some path) (Some q) of
        (Inl e, layer', evs) \<Rightarrow> (opts, evs, Raised e)
      | (Inr m, layer', evs) \<Rightarrow>
          if \<not> m then
            (case find_layer env path q method stack opts of
               (opts', evs', r) \<Rightarrow> (opts', evs @ evs', r))
          else
            (case layer_route layer' of
               None \<Rightarrow> (opts, evs, Found layer' stack)
             | Some route \<Rightarrow>
                 (let has_method = handles_method route method;
                      opts1 = (if \<not> has_method \<and> method = ''OPTIONS''
                               then appendMethods opts (options route) else opts)
                  in if \<not> has_method \<and> method \<noteq> ''HEAD'' then
                       (case find_layer env path q method stack opts1 of
                          (opts', evs', r) \<Rightarrow> (opts', evs @ evs', r))
                     else (opts1, evs, Found layer' stack))))"

text \<open>A property key that a plain object inherits.\<close>

definition inherited :: "pkey \<Rightarrow> bool" where
  "inherited name = (case name of Name s \<Rightarrow> s \<in> set Object_prototype | Idx n \<Rightarrow> False)"

text \<open>
  \<open>this.params[name]\<close> as \<open>process_params\<close> reads it: the callbacks registered for the
  name, \<open>None\<close> where the value is undefined. For an inherited name without registered
  callbacks the value is truthy and holds no callback at any index.
\<close>

definition paramCallbacks :: "router \<Rightarrow> pkey \<Rightarrow> param_middleware list option" where
  "paramCallbacks self name =
     (case map_of (router_params self) name of
        Some fns \<Rightarrow> Some fns
      | None \<Rightarrow> if inherited name then Some [] else None)"

text \<open>
  \<open>paramCallback\<close> of \<open>process_params\<close> for one key: the callbacks not yet called (the
  closure variable \<open>paramIndex\<close> is the position of the first of them), the signal it is
  called with, the memo and the state. \<open>Next s\<close> in the result is the call \<open>param(s)\<close>.
\<close>

definition read_param :: "ctx \<Rightarrow> pkey \<Rightarrow> error + pval" where
  "read_param c name =
     (case ctx_params c of
        None \<Rightarrow> Inl (TypeError ''Cannot read property of undefined'')
      | Some ps \<Rightarrow> Inr (get_prop ps name))"

fun paramCallback :: "pkey \<Rightarrow> string \<Rightarrow> param_middleware list \<Rightarrow> nat \<Rightarrow> signal
    \<Rightarrow> (pkey \<times> called) list \<Rightarrow> state \<Rightarrow> (pkey \<times> called) list \<times> state \<times> outcome" where
  "paramCallback name paramVal cbs paramIndex signal cd st =
     (case read_param (ctx st) name of
        Inl e \<Rightarrow> (cd, st, Throw e)
      | Inr v \<Rightarrow>
          (let cd1 = AList.map_entry name (\<lambda>m. m\<lparr>called_value := v\<rparr>) cd
           in if truthy signal then
                (AList.map_entry name (\<lambda>m. m\<lparr>called_signal := signal\<rparr>) cd1, st, Next signal)
              else
                (case cbs of
                   [] \<Rightarrow> (cd1, st, Next None)
                 | paramMiddleware # cbs' \<Rightarrow>
                     (case paramMiddleware (ctx st) paramVal name of
                        (c', out) \<Rightarrow>
                          (let st' = st\<lparr>ctx := c',
                                        log := log st @ [ParamCallback name paramVal paramIndex]\<rparr>
                           in case out of
                                Next signal' \<Rightarrow>
                                  paramCallback name paramVal cbs' (Suc paramIndex) signal' cd1 st'
                              | NoNext \<Rightarrow> (cd1, st', NoNext)
                              | Throw e \<Rightarrow> (cd1, st', Throw e))))))"

declare paramCallback.simps [simp del]

text \<open>
  \<open>param\<close> of \<open>process_params\<close>: the keys of the layer not yet processed (the closure
  variable \<open>i\<close> is the position of the first of them), the signal it is called with, the
  memo and the state. \<open>Next s\<close> in the result is the call \<open>next(s)\<close> of the continuation
  given to \<open>process_params\<close>.
\<close>

fun param :: "router \<Rightarrow> pkey list \<Rightarrow> signal \<Rightarrow> (pkey \<times> called) list \<Rightarrow> state
    \<Rightarrow> (pkey \<times> called) list \<times> state \<times> outcome" where
  "param self [] signal cd st =
     (if truthy signal then (cd, st, Next signal) else (cd, st, Next None))"
| "param self (name # keys) signal cd st =
     (if truthy signal then (cd, st, Next signal)
      else
        (case read_param (ctx st) name of
           Inl e \<Rightarrow> (cd, st, Throw e)
         | Inr paramVal \<Rightarrow>
             (case (paramVal, paramCallbacks self name) of
                (Some v, Some cbs) \<Rightarrow>
                  (case map_of cd name of
                     Some paramCalled \<Rightarrow>
                       if called_match paramCalled = v
                          \<or> (truthy (called_signal paramCalled)
                              \<and> called_signal paramCalled \<noteq> Some ''route'')
                       then
                         param self keys (called_signal paramCalled) cd
                           (st\<lparr>ctx := (ctx st)\<lparr>ctx_params :=
                              map_option (AList.update name (called_value paramCalled))
                                (ctx_params (ctx st))\<rparr>\<rparr>)
                       else
                         (case paramCallback name v cbs 0 None
                                 (AList.update name
                                    \<lparr>called_signal = None, called_match = v, called_value = Some v\<rparr> cd)
                                 st of
                            (cd', st', Next signal') \<Rightarrow> param self keys signal' cd' st'
                          | (cd', st', out) \<Rightarrow> (cd', st', out))
                   | None \<Rightarrow>
                       (case paramCallback name v cbs 0 None
                               (AList.update name
                                  \<lparr>called_signal = None, called_match = v, called_value = Some v\<rparr> cd)
                               st of
                          (cd', st', Next signal') \<Rightarrow> param self keys signal' cd' st'
                        | (cd', st', out) \<Rightarrow> (cd', st', out)))
              | _ \<Rightarrow> param self keys None cd st)))"

text \<open>\<open>Router.process_params\<close>.\<close>

definition process_params :: "router \<Rightarrow> route layer \<Rightarrow> (pkey \<times> called) list \<Rightarrow> state
    \<Rightarrow> (pkey \<times> called) list \<times> state \<times> outcome" where
  "process_params self layer cd st =
     (if layer_keys layer = [] then (cd, st, Next None)
      else param self (layer_keys layer) None cd st)"

lemma find_layer_rest:
  "find_layer env path q method stack opts = (opts', evs, Found layer rest)
    \<Longrightarrow> length rest < length stack"
proof (induction stack arbitrary: opts opts' evs)
  case Nil
  then show ?case by simp
next
  case (Cons l stack)
  then show ?case
    by (fastforce split: prod.splits sum.splits if_splits option.splits simp: Let_def)
qed

text \<open>
  The first two statements of \<open>router_next\<close>: the slash added and the prefix removed
  for the previous middleware are put back.
\<close>

definition restore_url :: "frame \<Rightarrow> ctx \<Rightarrow> frame \<times> ctx" where
  "restore_url fr c =
     (let c1 = (if slashAdded fr then c\<lparr>ctx_url := drop 1 (ctx_url c)\<rparr> else c);
          fr1 = (if slashAdded fr then fr\<lparr>slashAdded := False\<rparr> else fr)
      in if removed fr1 \<noteq> []
         then (fr1\<lparr>removed := []\<rparr>,
               c1\<lparr>ctx_baseUrl := Some (parentUrl fr1),
                   ctx_url := protohost fr1 @ removed fr1
                                @ drop (length (protohost fr1)) (ctx_url c1)\<rparr>)
         else (fr1, c1))"

text \<open>The statements of \<open>router_next\<close> after a match: the Route is stored and the layer's
  params are captured, merged with the parent's under \<open>mergeParams\<close>.\<close>

definition capture :: "router \<Rightarrow> frame \<Rightarrow> route layer \<Rightarrow> ctx \<Rightarrow> ctx" where
  "capture self fr layer c =
     (let c1 = (case layer_route layer of
                  Some route \<Rightarrow> c\<lparr>ctx_route := Some (route_path route)\<rparr>
                | None \<Rightarrow> c)
      in c1\<lparr>ctx_params :=
              (if router_mergeParams self
               then map_option (\<lambda>ps. mergeParams ps (parentParams fr)) (layer_params layer)
               else layer_params layer)\<rparr>)"

text \<open>The test of \<open>trim_prefix\<close> on the character that follows the matched prefix in the
  path: \<open>c && c !== '/' && c !== '.'\<close>.\<close>

definition breaks_inside :: "string \<Rightarrow> string \<Rightarrow> bool" where
  "breaks_inside layerPath path =
     (length layerPath < length path
      \<and> path ! length layerPath \<noteq> CHR ''/'' \<and> path ! length layerPath \<noteq> CHR ''.'')"

text \<open>The statements of \<open>trim_prefix\<close> that trim an accepted prefix from the url, ensure
  the leading slash and set the base url.\<close>

definition trim_url :: "frame \<Rightarrow> string \<Rightarrow> ctx \<Rightarrow> frame \<times> ctx" where
  "trim_url fr layerPath c =
     (let url1 = protohost fr @ drop (length (protohost fr) + length layerPath) (ctx_url c);
          addSlash = (protohost fr = [] \<and> (url1 = [] \<or> hd url1 \<noteq> CHR ''/''));
          url2 = (if addSlash then CHR ''/'' # url1 else url1);
          baseUrl = parentUrl fr
                      @ (if last layerPath = CHR ''/'' then butlast layerPath else layerPath)
      in (fr\<lparr>removed := layerPath, slashAdded := (if addSlash then True else slashAdded fr)\<rparr>,
          c\<lparr>ctx_url := url2, ctx_baseUrl := Some baseUrl\<rparr>))"

text \<open>
  \<open>router_next\<close> and \<open>trim_prefix\<close> of \<open>Router.handle\<close>. The arguments before the signal
  are the variables of the enclosing \<open>handle\<close> call: the Router, the frame, and the
  layers from \<open>idx\<close> on. A handler that calls its continuation re-enters \<open>router_next\<close>
  with the signal it passed; one that does not, or throws, ends the dispatch.
\<close>

function router_next :: "env \<Rightarrow> router \<Rightarrow> frame \<Rightarrow> route layer list \<Rightarrow> signal \<Rightarrow> state
      \<Rightarrow> state \<times> outcome"
  and trim_prefix :: "env \<Rightarrow> router \<Rightarrow> frame \<Rightarrow> route layer list \<Rightarrow> route layer \<Rightarrow> string
      \<Rightarrow> string \<Rightarrow> state \<Rightarrow> state \<times> outcome"
where
  "router_next env self fr stack signal st =
     (case restore_url fr (ctx st) of
        (fr2, c2) \<Rightarrow>
          if stack = [] \<or> signal = Some ''router'' then router_done fr2 (st\<lparr>ctx := c2\<rparr>)
          else
            (case getPathname env c2 of
               None \<Rightarrow> router_done fr2 (st\<lparr>ctx := c2\<rparr>)
             | Some path \<Rightarrow>
                 (case find_layer env path (ctx_query c2) (ctx_method c2) stack (frame_options fr2) of
                    (opts, evs, Raised e) \<Rightarrow> (st\<lparr>ctx := c2, log := log st @ evs\<rparr>, Throw e)
                  | (opts, evs, NotFound) \<Rightarrow>
                      router_done (fr2\<lparr>frame_options := opts\<rparr>) (st\<lparr>ctx := c2, log := log st @ evs\<rparr>)
                  | (opts, evs, Found layer rest) \<Rightarrow>
                      (case process_params self layer (paramcalled fr2)
                              (st\<lparr>ctx := capture self fr2 layer c2, log := log st @ evs\<rparr>) of
                         (cd, st4, Next paramSignal) \<Rightarrow>
                           if truthy paramSignal then
                             router_next env self (fr2\<lparr>frame_options := opts, paramcalled := cd\<rparr>)
                               rest paramSignal st4
                           else if layer_route layer \<noteq> None then
                             (case handle_request layer st4 of
                                (st5, Next signal') \<Rightarrow>
                                  router_next env self (fr2\<lparr>frame_options := opts, paramcalled := cd\<rparr>)
                                    rest signal' st5
                              | (st5, NoNext) \<Rightarrow> (st5, NoNext)
                              | (st5, Throw e) \<Rightarrow> (st5, Throw e))
                           else
                             (case layer_path layer of
                                None \<Rightarrow>
                                  (st4, Throw (TypeError ''Cannot read property length of undefined''))
                              | Some layerPath \<Rightarrow>
                                  trim_prefix env self (fr2\<lparr>frame_options := opts, paramcalled := cd\<rparr>)
                                    rest layer layerPath path st4)
                       | (cd, st4, NoNext) \<Rightarrow> (st4, NoNext)
                       | (cd, st4, Throw e) \<Rightarrow> (st4, Throw e)))))"
| "trim_prefix env self fr rest layer layerPath path st =
     (if layerPath \<noteq> [] then
        (if breaks_inside layerPath path then router_next env self fr rest None st
         else
           (case trim_url fr layerPath (ctx st) of
              (fr', c') \<Rightarrow>
                (case handle_request layer (st\<lparr>ctx := c'\<rparr>) of
                   (st'', Next signal') \<Rightarrow> router_next env self fr' rest signal' st''
                 | (st'', NoNext) \<Rightarrow> (st'', NoNext)
                 | (st'', Throw e) \<Rightarrow> (st'', Throw e))))
      else
        (case handle_request layer st of
           (st'', Next signal') \<Rightarrow> router_next env self fr rest signal' st''
         | (st'', NoNext) \<Rightarrow> (st'', NoNext)
         | (st'', Throw e) \<Rightarrow> (st'', Throw e)))"
  by pat_completeness auto
termination
  by (relation "measure (\<lambda>x. case x of
          Inl (env, self, fr, stack, signal, st) \<Rightarrow> 2 * length stack
        | Inr (env, self, fr, rest, layer, layerPath, path, st) \<Rightarrow> 2 * length rest + 1)")
     (auto dest: find_layer_rest find_layer_rest [OF sym])

declare router_next.simps [simp del] trim_prefix.simps [simp del]

text \<open>\<open>Router.handle\<close>.\<close>

definition handle :: "env \<Rightarrow> router \<Rightarrow> state \<Rightarrow> state \<times> outcome" where
  "handle env self st =
     (let c = ctx st;
          fr = \<lparr>removed = [], slashAdded = False,
                protohost = (case getProtohost (ctx_url c) of None \<Rightarrow> [] | Some p \<Rightarrow> p),
                paramcalled = [], frame_options = [],
                parentParams = ctx_params c,
                parentUrl = (case ctx_baseUrl c of None \<Rightarrow> [] | Some b \<Rightarrow> b),
                vals = (ctx_baseUrl c, ctx_params c, ctx_next c)\<rparr>;
          c' = c\<lparr>ctx_next := Some (RouterNext (closures st)),
                  ctx_baseUrl := Some (parentUrl fr),
                  ctx_originalUrl :=
                    (if truthy (ctx_originalUrl c) then ctx_originalUrl c else Some (ctx_url c))\<rparr>
      in router_next env self fr (router_stack self) None
           (st\<lparr>ctx := c', closures := Suc (closures st)\<rparr>))"

section \<open>Registration\<close>

text \<open>
  An argument of a registration call, by what the source tests of it: a function (its
  name, what it does, and \<open>fn.router.prefix\<close> when the function was exported by a Router
  with a truthy prefix), a string, a regular expression (by its source), an array, or any
  other value with its truthiness.
\<close>

datatype arg =
    AFunction string handler "string option"
  | AString string
  | ARegExp string
  | AArray "arg list"
  | AOther bool

text \<open>The options given to path-to-regexp; a field that is not given is \<open>None\<close>.\<close>

record regexp_opts =
  opt_sensitive :: "bool option"
  opt_strict :: "bool option"
  opt_end :: "bool option"

text \<open>
  What registration takes from outside the repository: \<open>util.inspect\<close>, the compiler
  \<open>pathRegexp\<close> (the matcher and the keys it fills in, for a pattern that the compiler
  accepts; one that it rejects by throwing is not modelled), and the own enumerable properties
  of a value as the \<open>query\<close> setter reads them (\<open>Object.keys\<close>, with each value classified
  by the setter's type tests).
\<close>

record reflect =
  inspect :: "arg \<Rightarrow> string"
  pathRegexp :: "arg \<Rightarrow> regexp_opts \<Rightarrow> (string \<Rightarrow> (string \<times> string option list) option) \<times> pkey list"
  own_properties :: "arg \<Rightarrow> (string \<times> qexpect) list"

definition is_function :: "arg \<Rightarrow> bool" where
  "is_function a = (case a of AFunction fname fn pre \<Rightarrow> True | _ \<Rightarrow> False)"

definition js_truthy :: "arg \<Rightarrow> bool" where
  "js_truthy a = (case a of AString s \<Rightarrow> s \<noteq> [] | AOther t \<Rightarrow> t | _ \<Rightarrow> True)"

text \<open>The constructor of \<open>Layer\<close>.\<close>

definition new_Layer :: "reflect \<Rightarrow> arg \<Rightarrow> regexp_opts \<Rightarrow> string \<Rightarrow> handler \<Rightarrow> 'r layer" where
  "new_Layer rf path opts fname fn =
     (case pathRegexp rf path opts of
        (re, ks) \<Rightarrow>
          \<lparr>layer_method = None,
           layer_handle = fn,
           layer_name = (if fname = [] then ''<anonymous>'' else fname),
           layer_params = None,
           layer_path = None,
           layer_query = None,
           layer_route = None,
           layer_regexp = re,
           layer_keys = ks,
           fast_star = (case path of AString p \<Rightarrow> p = ''*'' | _ \<Rightarrow> False),
           fast_slash = ((case path of AString p \<Rightarrow> p = ''/'' | _ \<Rightarrow> False)
                         \<and> opt_end opts = Some False)\<rparr>)"

text \<open>\<open>if (middlewares[0] && typeof middlewares[0] !== 'function') query = middlewares.shift()\<close>:
  the query taken, if any, and the arguments left.\<close>

definition shift_query :: "arg list \<Rightarrow> arg option \<times> arg list" where
  "shift_query middlewares =
     (case middlewares of
        [] \<Rightarrow> (None, [])
      | a # rest \<Rightarrow> if js_truthy a \<and> \<not> is_function a then (Some a, rest) else (None, a # rest))"

text \<open>\<open>layer.query = query\<close> for the value taken by \<open>shift_query\<close>.\<close>

definition assign_query :: "reflect \<Rightarrow> arg option \<Rightarrow> 'r layer \<Rightarrow> 'r layer" where
  "assign_query rf query L =
     set_query (case query of
                  None \<Rightarrow> None
                | Some a \<Rightarrow> if js_truthy a then Some (own_properties rf a) else None) L"

definition new_Route :: "string \<Rightarrow> route" where
  "new_Route path = \<lparr>route_path = path, route_stack = [], route_methods = []\<rparr>"

text \<open>The messages of the errors that name the rendered value, as the template literals
  of \<open>Router.use\<close> and \<open>Route.method\<close> build them.\<close>

definition use_message :: "string \<Rightarrow> string" where
  "use_message shown = ''Router.use() requires a middleware function but got a '' @ shown"

definition method_message :: "string \<Rightarrow> string \<Rightarrow> string" where
  "method_message methodName shown =
     ''Route.'' @ (if methodName = ''_all'' then ''all'' else methodName)
       @ ''() requires callback functions but got a '' @ shown"

text \<open>
  The loop of \<open>Route.method\<close> over the handlers. A handler that is not a function throws;
  the layers pushed before it stay in the Route, which is returned with the error.
  Assigning \<open>true\<close> to \<open>methods.__proto__\<close> adds no key.
\<close>

fun method_loop :: "reflect \<Rightarrow> string \<Rightarrow> arg option \<Rightarrow> arg list \<Rightarrow> route \<Rightarrow> route \<times> error option" where
  "method_loop rf methodName query [] R = (R, None)"
| "method_loop rf methodName query (fn # rest) R =
     (case fn of
        AFunction fname f pre \<Rightarrow>
          (let layer = (new_Layer rf (AString ''/'')
                          \<lparr>opt_sensitive = None, opt_strict = None, opt_end = None\<rparr> fname f)
                       \<lparr>layer_method := (if methodName = ''_all'' then None else Some methodName)\<rparr>;
               layer = assign_query rf query layer
           in method_loop rf methodName query rest
                (R\<lparr>route_methods :=
                     (if methodName = ''__proto__'' then route_methods R
                      else AList.update methodName True (route_methods R)),
                   route_stack := route_stack R @ [layer]\<rparr>))
      | _ \<Rightarrow>
          (R, Some (TypeError (method_message methodName (inspect rf fn)))))"

text \<open>\<open>Route.method\<close>, and the verb methods of \<open>Route\<close> that delegate to it.\<close>

definition Route_method :: "reflect \<Rightarrow> string \<Rightarrow> arg list \<Rightarrow> route \<Rightarrow> route \<times> error option" where
  "Route_method rf methodName middlewares R =
     (case shift_query middlewares of
        (query, handlers) \<Rightarrow> method_loop rf methodName query handlers R)"

definition Route_all :: "reflect \<Rightarrow> arg list \<Rightarrow> route \<Rightarrow> route \<times> error option" where
  "Route_all rf = Route_method rf ''_all''"

definition Route_get :: "reflect \<Rightarrow> arg list \<Rightarrow> route \<Rightarrow> route \<times> error option" where
  "Route_get rf = Route_method rf ''get''"

definition Route_post :: "reflect \<Rightarrow> arg list \<Rightarrow> route \<Rightarrow> route \<times> error option" where
  "Route_post rf = Route_method rf ''post''"

definition Route_delete :: "reflect \<Rightarrow> arg list \<Rightarrow> route \<Rightarrow> route \<times> error option" where
  "Route_delete rf = Route_method rf ''delete''"

definition Route_put :: "reflect \<Rightarrow> arg list \<Rightarrow> route \<Rightarrow> route \<times> error option" where
  "Route_put rf = Route_method rf ''put''"

definition Route_patch :: "reflect \<Rightarrow> arg list \<Rightarrow> route \<Rightarrow> route \<times> error option" where
  "Route_patch rf = Route_method rf ''patch''"

definition Route_head :: "reflect \<Rightarrow> arg list \<Rightarrow> route \<Rightarrow> route \<times> error option" where
  "Route_head rf = Route_method rf ''head''"

definition Route_options :: "reflect \<Rightarrow> arg list \<Rightarrow> route \<Rightarrow> route \<times> error option" where
  "Route_options rf = Route_method rf ''options''"

text \<open>The constructor of \<open>Router\<close> with the options after the defaults are applied.\<close>

definition new_Router :: "bool \<Rightarrow> bool \<Rightarrow> bool \<Rightarrow> string option \<Rightarrow> router" where
  "new_Router cs mp str pre =
     \<lparr>router_params = [], caseSensitive = cs, router_mergeParams = mp, strict = str,
      prefix = pre, router_stack = []\<rparr>"

text \<open>\<open>flatten\<close> of array-flatten: nested arrays are replaced by their elements.\<close>

fun flatten :: "arg list \<Rightarrow> arg list" where
  "flatten [] = []"
| "flatten (AArray xs # rest) = flatten xs @ flatten rest"
| "flatten (a # rest) = a # flatten rest"

definition is_path :: "arg \<Rightarrow> bool" where
  "is_path one = (case one of AString s \<Rightarrow> True | ARegExp r \<Rightarrow> True | _ \<Rightarrow> False)"

text \<open>
  The first statements of \<open>Router.use\<close>: the path (the first argument when it is a
  string, a regular expression or an array of these, otherwise \<open>'/'\<close>), the query, and
  the flattened middleware arguments that are left.
\<close>

definition use_arguments :: "arg list \<Rightarrow> arg \<times> arg option \<times> arg list" where
  "use_arguments middlewares =
     (case (case middlewares of
              [] \<Rightarrow> (AString ''/'', [])
            | firstArg # rest \<Rightarrow>
                if list_all is_path (case firstArg of AArray xs \<Rightarrow> xs | _ \<Rightarrow> [firstArg])
                then (firstArg, rest) else (AString ''/'', firstArg # rest)) of
        (path, middlewares') \<Rightarrow>
          (case shift_query (flatten middlewares') of
             (query, fns) \<Rightarrow> (path, query, fns)))"

text \<open>
  The loop of \<open>Router.use\<close> over the middleware. One that is not a function throws; the
  layers pushed before it stay in the Router. The prefix of a mounted Router is appended
  to a string path; \<open>endsWith\<close> of a path that is not a string throws.
\<close>

fun use_loop :: "reflect \<Rightarrow> arg \<Rightarrow> arg option \<Rightarrow> arg list \<Rightarrow> router \<Rightarrow> router \<times> error option" where
  "use_loop rf path query [] self = (self, None)"
| "use_loop rf path query (fn # rest) self =
     (case fn of
        AFunction fname f pre \<Rightarrow>
          (case (case pre of
                   None \<Rightarrow> Inr path
                 | Some routerPrefix \<Rightarrow>
                     (case path of
                        AString p \<Rightarrow>
                          Inr (AString
                                 ((if p \<noteq> [] \<and> last p = CHR ''/''
                                      \<and> routerPrefix \<noteq> [] \<and> hd routerPrefix = CHR ''/''
                                   then butlast p else p) @ routerPrefix))
                      | _ \<Rightarrow> Inl (TypeError ''prefixedPath.endsWith is not a function''))) of
             Inl e \<Rightarrow> (self, Some e)
           | Inr prefixedPath \<Rightarrow>
               (let layer = new_Layer rf prefixedPath
                              \<lparr>opt_sensitive = Some (caseSensitive self), opt_strict = Some False,
                               opt_end = Some False\<rparr> fname f;
                    layer = assign_query rf query (layer\<lparr>layer_route := None\<rparr>)
                in use_loop rf path query rest
                     (self\<lparr>router_stack := router_stack self @ [layer]\<rparr>)))
      | _ \<Rightarrow>
          (self, Some (TypeError (use_message (inspect rf fn)))))"

text \<open>\<open>Router.use\<close>.\<close>

definition use :: "reflect \<Rightarrow> arg list \<Rightarrow> router \<Rightarrow> router \<times> error option" where
  "use rf middlewares self =
     (case use_arguments middlewares of
        (path, query, fns) \<Rightarrow>
          if fns = [] then (self, Some (TypeError ''Router.use() requires a middleware function''))
          else use_loop rf path query fns self)"

text \<open>
  \<open>Router.route\<close> pushes a layer bound to a new Route and returns the Route, which the
  caller then fills. The layer reads the Route when a request is dispatched, so the model
  pushes the layer of a Route as it stands after the calls that fill it.
\<close>

definition route_layer :: "env \<Rightarrow> reflect \<Rightarrow> router \<Rightarrow> arg \<Rightarrow> arg option \<Rightarrow> route \<Rightarrow> route layer" where
  "route_layer env rf self path query R =
     assign_query rf query
       ((new_Layer rf path
           \<lparr>opt_sensitive = Some (caseSensitive self), opt_strict = Some (strict self),
            opt_end = Some True\<rparr>
           ''bound dispatch'' (Engine 1 (dispatch env R)))
        \<lparr>layer_route := Some R\<rparr>)"

text \<open>
  The verb method \<open>get\<close> of \<open>Router\<close>, which the loop over \<open>methods\<close> defines as
  \<open>this.method('get', path, ...middlewares)\<close>: \<open>Router.method\<close> takes the query, creates
  the Route with \<open>this.route(path, query)\<close> and calls \<open>route['get']\<close>, which is
  \<open>Route.get\<close>. The route path is a string here.
\<close>

definition Router_get :: "env \<Rightarrow> reflect \<Rightarrow> string \<Rightarrow> arg list \<Rightarrow> router
    \<Rightarrow> router \<times> error option" where
  "Router_get env rf path middlewares self =
     (case shift_query middlewares of
        (query, handlers) \<Rightarrow>
          (case Route_get rf handlers (new_Route path) of
             (R, err) \<Rightarrow>
               (self\<lparr>router_stack :=
                   router_stack self @ [route_layer env rf self (AString path) query R]\<rparr>, err)))"



text \<open>\<open>Router.routes\<close>: the exported function. Exported for a caller that is not a Router,
  a Router with a prefix is mounted in an anonymous parent first.\<close>

definition routes :: "env \<Rightarrow> reflect \<Rightarrow> router \<Rightarrow> bool \<Rightarrow> arg" where
  "routes env rf self usedByRouter =
     (let router = AFunction ''router'' (Engine 2 (handle env self))
                     (if truthy (prefix self) then prefix self else None)
      in if \<not> usedByRouter \<and> truthy (prefix self) then
           (case use rf [router] (new_Router False False False None) of
              (wrapper, err) \<Rightarrow> AFunction ''router'' (Engine 2 (handle env wrapper)) None)
         else router)"

section \<open>Invariants and sample inputs\<close>

text \<open>
  The object \<open>methods\<close> as the verb methods of \<open>Route\<close> leave it: each key once, every
  value \<open>true\<close>, every key in lower case.
\<close>

definition methods_wf :: "route \<Rightarrow> bool" where
  "methods_wf R =
     (distinct (map fst (route_methods R))
      \<and> list_all snd (route_methods R)
      \<and> list_all (\<lambda>kv. toLowerCase (fst kv) = fst kv) (route_methods R))"

text \<open>A middleware that calls its continuation without a signal.\<close>

definition sample_fn :: arg where
  "sample_fn = AFunction ''h'' (Middleware 2 (\<lambda>c. (c, Next None))) None"

text \<open>Sample values for what registration takes from outside: a rendering of strings,
  \<open>42\<close> and \<open>null\<close>, and a compiler whose matcher accepts the path \<open>/\<close> only.\<close>

definition sample_reflect :: reflect where
  "sample_reflect =
     \<lparr>inspect = (\<lambda>a. case a of AString s \<Rightarrow> [CHR 0x27] @ s @ [CHR 0x27]
                       | AOther t \<Rightarrow> (if t then ''42'' else ''null'')
                       | _ \<Rightarrow> ''[Object]''),
      pathRegexp = (\<lambda>path opts. ((\<lambda>p. if p = ''/'' then Some (''/'', []) else None), [])),
      own_properties = (\<lambda>a. [])\<rparr>"

text \<open>The Route of \<open>new Route('/').post(h).get(h)\<close>.\<close>

definition post_get_route :: route where
  "post_get_route =
     fst (Route_get sample_reflect [sample_fn]
            (fst (Route_post sample_reflect [sample_fn] (new_Route ''/''))))"

text \<open>Sample values for what the engine takes from outside: a decoder that knows \<open>%20\<close>
  and rejects any other escape, a JSON parser that always fails, and a pathname that is
  the url up to its query.\<close>

definition sample_env :: env where
  "sample_env =
     \<lparr>decodeURIComponent =
        (\<lambda>s. if s = ''%20'' then Some '' '' else if CHR ''%'' \<in> set s then None else Some s),
      JSON_parse = (\<lambda>s. None),
      parseUrl_pathname = (\<lambda>u. Some (takeWhile (\<lambda>c. c \<noteq> CHR ''?'') u))\<rparr>"

text \<open>The empty query mapping.\<close>

definition no_query :: query where
  "no_query = (\<lambda>key. None)"

text \<open>The layer of \<open>use('/', {state: 'started'}, h)\<close>.\<close>

definition started_layer :: "route layer" where
  "started_layer =
     (new_Layer sample_reflect (AString ''/'')
        \<lparr>opt_sensitive = Some False, opt_strict = Some False, opt_end = Some False\<rparr>
        ''h'' (Middleware 2 (\<lambda>c. (c, Next None))))
     \<lparr>layer_query := Some [(''state'', QString ''started'')]\<rparr>"

text \<open>A layer as \<open>new Layer('/user/:id', {end: true}, h)\<close> is compiled: one named
  capture after the literal prefix.\<close>

definition user_layer :: "route layer" where
  "user_layer =
     \<lparr>layer_method = None,
      layer_handle = Middleware 2 (\<lambda>c. (c, Next None)),
      layer_name = ''h'',
      layer_params = None,
      layer_path = None,
      layer_query = None,
      layer_route = None,
      layer_regexp =
        (\<lambda>p. if take 6 p = ''/user/'' \<and> drop 6 p \<noteq> [] \<and> CHR ''/'' \<notin> set (drop 6 p)
             then Some (p, [Some (drop 6 p)]) else None),
      layer_keys = [Name ''id''],
      fast_star = False,
      fast_slash = False\<rparr>"

text \<open>The same layer with a function-valued query condition on \<open>state\<close>.\<close>

definition predicate_layer :: "route layer" where
  "predicate_layer =
     user_layer\<lparr>layer_query := Some [(''state'', QFunction (\<lambda>actual. Inr (actual = Some ''started'')))]\<rparr>"

text \<open>The query mapping of \<open>?state=started\<close>.\<close>

definition started_query :: query where
  "started_query = (\<lambda>key. if key = ''state'' then Some ''started'' else None)"

text \<open>Parent params with a gap in their positional indices: \<open>{0: 'a', 2: 'b'}\<close>.\<close>

definition gapped_parent :: params where
  "gapped_parent = [(Idx 0, Some ''a''), (Idx 2, Some ''b'')]"

text \<open>Layer params with two positional captures: \<open>{0: 'c', 1: 'd'}\<close>.\<close>

definition two_captures :: params where
  "two_captures = [(Idx 0, Some ''c''), (Idx 1, Some ''d'')]"

text \<open>Parent params \<open>{0: 'a', id: 'y'}\<close>.\<close>

definition parent_params :: params where
  "parent_params = [(Idx 0, Some ''a''), (Name ''id'', Some ''y'')]"

text \<open>Layer params \<open>{0: 'c', id: 'x'}\<close>.\<close>

definition child_params :: params where
  "child_params = [(Idx 0, Some ''c''), (Name ''id'', Some ''x'')]"

text \<open>The saved fields of a frame are back in the context.\<close>

definition restored :: "frame \<Rightarrow> state \<Rightarrow> bool" where
  "restored fr st =
     ((ctx_baseUrl (ctx st), ctx_params (ctx st), ctx_next (ctx st)) = vals fr)"

text \<open>A request \<open>GET /foo/bar?x=1\<close> that arrives with a base url, params and a
  continuation already set by the caller.\<close>

definition sample_ctx :: ctx where
  "sample_ctx =
     \<lparr>ctx_method = ''GET'', ctx_url = ''/foo/bar?x=1'', ctx_query = (\<lambda>key. None),
      ctx_params = Some [(Name ''outer'', Some ''1'')], ctx_baseUrl = Some ''/api'',
      ctx_originalUrl = None, ctx_route = None, ctx_next = Some (Given 0),
      ctx_allow = None, ctx_body = None\<rparr>"

text \<open>The state in which a dispatch of that request starts.\<close>

definition sample_state :: state where
  "sample_state = \<lparr>ctx = sample_ctx, log = [], closures = 0\<rparr>"

text \<open>A middleware layer mounted at \<open>/foo\<close> whose matcher accepts every path that starts
  with \<open>/foo\<close> and gives \<open>/foo\<close> as the matched text; its handler stores the url it
  sees in the body and calls its continuation.\<close>

definition foo_layer :: "route layer" where
  "foo_layer =
     \<lparr>layer_method = None,
      layer_handle = Middleware 2 (\<lambda>c. (c\<lparr>ctx_body := Some (ctx_url c)\<rparr>, Next None)),
      layer_name = ''seen'',
      layer_params = None,
      layer_path = None,
      layer_query = None,
      layer_route = None,
      layer_regexp = (\<lambda>p. if take 4 p = ''/foo'' then Some (''/foo'', []) else None),
      layer_keys = [],
      fast_star = False,
      fast_slash = False\<rparr>"

text \<open>A Router with that layer only.\<close>

definition foo_router :: router where
  "foo_router = (new_Router False False False None)\<lparr>router_stack := [foo_layer]\<rparr>"

text \<open>A frame as \<open>handle\<close> creates it for a request without scheme and host.\<close>

definition empty_frame :: frame where
  "empty_frame =
     \<lparr>removed = [], slashAdded = False, protohost = [], paramcalled = [], frame_options = [],
      parentParams = None, parentUrl = [], vals = (Some ''/api'', None, Some (Given 0))\<rparr>"

text \<open>The Router of \<open>router.get('/', h)\<close>.\<close>

definition get_router :: router where
  "get_router =
     fst (Router_get sample_env sample_reflect ''/'' [sample_fn]
            (new_Router False False False None))"

text \<open>The state in which a dispatch of \<open>OPTIONS /\<close> starts.\<close>

definition options_state :: state where
  "options_state =
     \<lparr>ctx = \<lparr>ctx_method = ''OPTIONS'', ctx_url = ''/'', ctx_query = (\<lambda>key. None),
              ctx_params = None, ctx_baseUrl = None, ctx_originalUrl = None, ctx_route = None,
              ctx_next = None, ctx_allow = None, ctx_body = None\<rparr>,
      log = [], closures = 0\<rparr>"

text \<open>The request \<open>GET /foobar\<close>.\<close>

definition foobar_state :: state where
  "foobar_state = sample_state\<lparr>ctx := sample_ctx\<lparr>ctx_url := ''/foobar''\<rparr>\<rparr>"

text \<open>A \<open>get\<close> layer of a Route whose handler calls its continuation with a given signal.\<close>

definition signalling_layer :: "string \<Rightarrow> signal \<Rightarrow> unit layer" where
  "signalling_layer name sig =
     (new_Layer sample_reflect (AString ''/'')
        \<lparr>opt_sensitive = None, opt_strict = None, opt_end = None\<rparr>
        name (Middleware 2 (\<lambda>c. (c, Next sig))))
     \<lparr>layer_method := Some ''get''\<rparr>"

text \<open>A Route with two \<open>get\<close> layers; the first one raises the given signal.\<close>

definition signal_route :: "signal \<Rightarrow> route" where
  "signal_route sig =
     \<lparr>route_path = ''/'',
      route_stack = [signalling_layer ''first'' sig, signalling_layer ''second'' None],
      route_methods = [(''get'', True)]\<rparr>"

text \<open>A middleware layer mounted at \<open>/\<close>.\<close>

definition after_layer :: "route layer" where
  "after_layer =
     new_Layer sample_reflect (AString ''/'')
       \<lparr>opt_sensitive = Some False, opt_strict = Some False, opt_end = Some False\<rparr>
       ''after'' (Middleware 2 (\<lambda>c. (c, Next None)))"

text \<open>A Router with that Route at \<open>/\<close>, followed by the middleware layer.\<close>

definition signal_router :: "signal \<Rightarrow> router" where
  "signal_router sig =
     (new_Router False False False None)
     \<lparr>router_stack :=
        [route_layer sample_env sample_reflect (new_Router False False False None)
           (AString ''/'') None (signal_route sig),
         after_layer]\<rparr>"

text \<open>The request \<open>GET /\<close>.\<close>

definition root_state :: state where
  "root_state = sample_state\<lparr>ctx := sample_ctx\<lparr>ctx_url := ''/''\<rparr>\<rparr>"






text \<open>No function of the list makes \<open>Router.use\<close> throw when it appends a mounted Router's
  prefix: the path is a string, or none of them is the export of a Router with a prefix.\<close>

definition mountable :: "arg \<Rightarrow> arg list \<Rightarrow> bool" where
  "mountable path fns =
     (case path of
        AString p \<Rightarrow> True
      | _ \<Rightarrow> list_all (\<lambda>fn. case fn of AFunction fname f (Some pre) \<Rightarrow> False | _ \<Rightarrow> True) fns)"

text \<open>The export of a Router with the prefix \<open>/api\<close>.\<close>

definition prefixed_router :: arg where
  "prefixed_router =
     routes sample_env sample_reflect (new_Router False False False (Some ''/api'')) True"

section \<open>Properties of Layer\<close>

lemma started_layer_fast: "fast_slash started_layer" "layer_query started_layer = Some [(''state'', QString ''started'')]"
  by (simp_all add: started_layer_def new_Layer_def sample_reflect_def)

text \<open>
  C4, as stated, fails: a call can return false and leave \<open>params\<close> and \<open>path\<close> set.
  The layer of \<open>use('/', {state: 'started'}, h)\<close> matches every path by the fast path
  for \<open>/\<close>; for a request without \<open>state\<close> the call returns false, with \<open>params\<close> the
  empty object and \<open>path\<close> the empty string.
\<close>

theorem match_clears_counterexample:
  "fst (match sample_env started_layer (Some ''/'') (Some no_query)) = Inr False
   \<and> layer_params (fst (snd (match sample_env started_layer (Some ''/'') (Some no_query)))) = Some []
   \<and> layer_path (fst (snd (match sample_env started_layer (Some ''/'') (Some no_query)))) = Some []"
  by (simp add: match_def queryMatch_def started_layer_fast no_query_def)

lemma store_values_error:
  "store_values env ks cs ps0 = (Some e, ps)
    \<Longrightarrow> (\<exists>c \<in> set cs. decode_param env c = Inl e) \<or> length ks < length cs"
  by (induction env ks cs ps0 rule: store_values.induct) (auto split: sum.splits)

lemma store_values_decode_error:
  "i < length cs \<Longrightarrow> i < length ks
    \<Longrightarrow> \<forall>j < i. \<exists>d. decode_param env (cs ! j) = Inr d
    \<Longrightarrow> decode_param env (cs ! i) = Inl e
    \<Longrightarrow> fst (store_values env ks cs ps0) = Some e"
proof (induction env ks cs ps0 arbitrary: i rule: store_values.induct)
  case (1 env ks ps)
  then show ?case by simp
next
  case (2 env c cs ps)
  then show ?case by simp
next
  case (3 env key ks c cs ps0)
  show ?case
  proof (cases i)
    case 0
    with "3.prems" show ?thesis by simp
  next
    case (Suc n)
    from "3.prems"(3) Suc obtain d where d: "decode_param env c = Inr d" by force
    have "\<forall>j < n. \<exists>d. decode_param env (cs ! j) = Inr d"
      using "3.prems"(3) Suc by force
    with "3.IH" [OF d, of n] "3.prems" Suc d show ?thesis by simp
  qed
qed

lemma store_values_key_error:
  "length ks < length cs
    \<Longrightarrow> \<forall>j < length ks. \<exists>d. decode_param env (cs ! j) = Inr d
    \<Longrightarrow> \<exists>msg. fst (store_values env ks cs ps0) = Some (TypeError msg)"
proof (induction env ks cs ps0 rule: store_values.induct)
  case (1 env ks ps)
  then show ?case by simp
next
  case (2 env c cs ps)
  then show ?case by simp
next
  case (3 env key ks c cs ps0)
  from "3.prems"(2) obtain d where d: "decode_param env c = Inr d" by force
  have "\<forall>j < length ks. \<exists>d. decode_param env (cs ! j) = Inr d"
    using "3.prems"(2) by force
  with "3.IH" [OF d] "3.prems"(1) d show ?case by simp
qed

lemma filter_zip_absent:
  "k \<notin> set (take (length ds) ks) \<Longrightarrow> filter (\<lambda>kd. fst kd = k) (zip ks ds) = []"
proof -
  assume a: "k \<notin> set (take (length ds) ks)"
  have "set (map fst (zip ks ds)) \<subseteq> set (take (length ds) ks)"
    by (auto simp: map_fst_zip_take dest: in_set_takeD set_take_subset [THEN subsetD])
       (metis in_set_takeD min.commute set_take_subset subsetD take_take)
  with a show ?thesis by (auto simp: filter_empty_conv)
qed

lemma store_values_lookup:
  "store_values env ks cs ps0 = (None, ps) \<Longrightarrow> map (decode_param env) cs = map Inr ds
    \<Longrightarrow> map_of ps k
        = (if k \<in> set (take (length cs) ks) \<and> k \<noteq> Name ''__proto__''
           then Some (case filter (\<lambda>d. d \<noteq> None)
                             (map snd (filter (\<lambda>kd. fst kd = k) (zip ks ds))) of
                        [] \<Rightarrow> get_prop ps0 k
                      | d # defined \<Rightarrow> last (d # defined))
           else map_of ps0 k)"
proof (induction env ks cs ps0 arbitrary: ds rule: store_values.induct)
  case (1 env ks ps0)
  then show ?case by simp
next
  case (2 env c cs ps0)
  then show ?case by simp
next
  case (3 env key ks c cs ps0)
  from "3.prems"(2) obtain d ds' where ds: "ds = d # ds'" "decode_param env c = Inr d"
    "map (decode_param env) cs = map Inr ds'"
    by (cases ds) auto
  let ?ps1 = "if key = Name ''__proto__'' then ps0
              else if d \<noteq> None \<or> \<not> has_key ps0 key then AList.update key d ps0 else ps0"
  from "3.prems"(1) ds have rest: "store_values env ks cs ?ps1 = (None, ps)" by simp
  note IH = "3.IH" [OF ds(2) rest ds(3)]
  from ds(3) have len: "length ds' = length cs" by (metis length_map)
  have absent: "filter (\<lambda>kd. fst kd = k) (zip ks ds') = []"
    if "k \<notin> set (take (length cs) ks)"
    using that filter_zip_absent [of k ds' ks] len by simp
  show ?case
    unfolding IH ds(1)
    by (auto simp: get_prop_def has_key_def update_conv' absent
             split: list.splits option.splits)
qed


lemma store_values_ok:
  assumes len: "length caps \<le> length ks"
    and dec: "map (decode_param env) caps = map Inr ds"
  shows "\<exists>ps. store_values env ks caps ps0 = (None, ps)"
proof (cases "store_values env ks caps ps0")
  case (Pair r ps)
  show ?thesis
  proof (cases r)
    case None
    with Pair show ?thesis by simp
  next
    case (Some e)
    with Pair have "(\<exists>c \<in> set caps. decode_param env c = Inl e) \<or> length ks < length caps"
      by (simp add: store_values_error)
    moreover have "\<forall>c \<in> set caps. \<exists>d. decode_param env c = Inr d"
    proof
      fix c assume "c \<in> set caps"
      then have "decode_param env c \<in> set (map Inr ds)"
        using dec by (metis image_eqI set_map)
      then show "\<exists>d. decode_param env c = Inr d" by auto
    qed
    ultimately show ?thesis using len by force
  qed
qed

lemma match_query_throws:
  assumes "match env L path q = (r, L', evs)" and "fst (queryMatch env L q) = Inl e"
  shows "r = Inl e \<and> L' = L"
  using assms by (auto simp: match_def split: prod.splits sum.splits)

lemma match_unmatched:
  assumes "match env L path q = (r, L', evs)" and "fst (queryMatch env L q) = Inr b"
    and "path = None \<or> (\<exists>p. path = Some p \<and> \<not> fast_slash L \<and> \<not> fast_star L \<and> layer_regexp L p = None)"
  shows "r = Inr False \<and> layer_params L' = None \<and> layer_path L' = None"
  using assms by (auto simp: match_def split: prod.splits sum.splits)

lemma match_fast_slash:
  assumes "match env L (Some p) q = (r, L', evs)" and "fst (queryMatch env L q) = Inr b"
    and "fast_slash L"
  shows "r = Inr b \<and> layer_params L' = Some [] \<and> layer_path L' = Some []"
  using assms by (auto simp: match_def split: prod.splits sum.splits)

lemma match_fast_star:
  assumes "match env L (Some p) q = (r, L', evs)" and "fst (queryMatch env L q) = Inr b"
    and "\<not> fast_slash L" and "fast_star L"
  shows "(\<forall>v. decode_param env (Some p) = Inr v
            \<longrightarrow> r = Inr b \<and> layer_params L' = Some [(Idx 0, v)] \<and> layer_path L' = Some p)
         \<and> (\<forall>e. decode_param env (Some p) = Inl e \<longrightarrow> r = Inl e)"
  using assms by (auto simp: match_def split: prod.splits sum.splits)

lemma match_regexp:
  assumes m: "match env L (Some p) q = (r, L', evs)" and qm: "fst (queryMatch env L q) = Inr b"
    and nf: "\<not> fast_slash L" "\<not> fast_star L"
    and re: "layer_regexp L p = Some (m0, caps)"
    and len: "length caps \<le> length (layer_keys L)"
    and dec: "map (decode_param env) caps = map Inr ds"
  shows "r = Inr b \<and> layer_path L' = Some m0
         \<and> (\<exists>ps. layer_params L' = Some ps
              \<and> (\<forall>k. has_key ps k
                         = (k \<in> set (take (length caps) (layer_keys L)) \<and> k \<noteq> Name ''__proto__'')
                     \<and> (k \<noteq> Name ''__proto__''
                          \<longrightarrow> get_prop ps k
                                 = (case filter (\<lambda>d. d \<noteq> None)
                                           (map snd (filter (\<lambda>kd. fst kd = k) (zip (layer_keys L) ds))) of
                                      [] \<Rightarrow> None
                                    | d # defined \<Rightarrow> last (d # defined)))))"
proof -
  from store_values_ok [OF len dec] obtain ps
    where sv: "store_values env (layer_keys L) caps [] = (None, ps)" by blast
  from dec have l: "length ds = length caps" by (metis length_map)
  have look: "map_of ps k
        = (if k \<in> set (take (length caps) (layer_keys L)) \<and> k \<noteq> Name ''__proto__''
           then Some (case filter (\<lambda>d. d \<noteq> None)
                             (map snd (filter (\<lambda>kd. fst kd = k) (zip (layer_keys L) ds))) of
                        [] \<Rightarrow> get_prop [] k
                      | d # defined \<Rightarrow> last (d # defined))
           else map_of [] k)" for k
    by (rule store_values_lookup [OF sv dec])
  have vals: "has_key ps k
                  = (k \<in> set (take (length caps) (layer_keys L)) \<and> k \<noteq> Name ''__proto__'')
              \<and> (k \<noteq> Name ''__proto__''
                   \<longrightarrow> get_prop ps k
                          = (case filter (\<lambda>d. d \<noteq> None)
                                    (map snd (filter (\<lambda>kd. fst kd = k) (zip (layer_keys L) ds))) of
                               [] \<Rightarrow> None
                             | d # defined \<Rightarrow> last (d # defined)))" for k
  proof (cases "k \<in> set (take (length caps) (layer_keys L))")
    case True
    with look [of k] show ?thesis by (simp add: has_key_def get_prop_def split: list.splits)
  next
    case False
    with filter_zip_absent [of k ds "layer_keys L"] l
    have "filter (\<lambda>kd. fst kd = k) (zip (layer_keys L) ds) = []" by simp
    with False look [of k] show ?thesis by (simp add: has_key_def get_prop_def)
  qed
  from m qm nf re sv have "r = Inr b" "layer_path L' = Some m0" "layer_params L' = Some ps"
    by (auto simp: match_def split: prod.splits sum.splits)
  with vals show ?thesis by blast
qed

lemma match_regexp_throws:
  assumes m: "match env L (Some p) q = (r, L', evs)" and qm: "fst (queryMatch env L q) = Inr b"
    and nf: "\<not> fast_slash L" "\<not> fast_star L"
    and re: "layer_regexp L p = Some (m0, caps)"
  shows "(\<forall>i e. i < length caps \<and> i < length (layer_keys L)
              \<and> (\<forall>j < i. \<exists>d. decode_param env (caps ! j) = Inr d)
              \<and> decode_param env (caps ! i) = Inl e
            \<longrightarrow> r = Inl e)
         \<and> (length (layer_keys L) < length caps
              \<and> (\<forall>j < length (layer_keys L). \<exists>d. decode_param env (caps ! j) = Inr d)
            \<longrightarrow> (\<exists>msg. r = Inl (TypeError msg)))"
proof -
  from m qm nf re
  have r: "r = (case fst (store_values env (layer_keys L) caps []) of
                  Some e \<Rightarrow> Inl e | None \<Rightarrow> Inr b)"
    by (auto simp: match_def split: prod.splits sum.splits option.splits)
  show ?thesis
  proof (intro conjI allI impI)
    fix i e
    assume "i < length caps \<and> i < length (layer_keys L)
              \<and> (\<forall>j < i. \<exists>d. decode_param env (caps ! j) = Inr d)
              \<and> decode_param env (caps ! i) = Inl e"
    then have "fst (store_values env (layer_keys L) caps []) = Some e"
      by (intro store_values_decode_error [of i]) simp_all
    with r show "r = Inl e" by simp
  next
    assume "length (layer_keys L) < length caps
              \<and> (\<forall>j < length (layer_keys L). \<exists>d. decode_param env (caps ! j) = Inr d)"
    then obtain msg where "fst (store_values env (layer_keys L) caps []) = Some (TypeError msg)"
      using store_values_key_error [of "layer_keys L" caps env "[]"] by blast
    with r show "\<exists>msg. r = Inl (TypeError msg)" by simp
  qed
qed

lemma decode_param_error:
  "decode_param env c = Inl e \<Longrightarrow> \<exists>msg. e = URIError msg 400"
  by (auto simp: decode_param_def split: option.splits if_splits)

lemma match_throws:
  assumes "match env L path q = (Inl e, L', evs)"
  shows "fst (queryMatch env L q) = Inl e
         \<or> (\<exists>p. path = Some p \<and> \<not> fast_slash L
               \<and> ((fast_star L \<and> decode_param env (Some p) = Inl e)
                   \<or> (\<not> fast_star L
                       \<and> (\<exists>m0 caps. layer_regexp L p = Some (m0, caps)
                             \<and> ((\<exists>c \<in> set caps. decode_param env c = Inl e)
                                 \<or> length (layer_keys L) < length caps)))))"
  using assms
  by (auto simp: match_def split: prod.splits option.splits if_splits sum.splits
           dest!: store_values_error)

lemma queryMatch_throws:
  assumes "fst (queryMatch env L q) = Inl e"
  shows "\<exists>kvs. layer_query L = Some kvs \<and> kvs \<noteq> []
           \<and> (q = None
               \<or> (\<exists>actualQuery pre key f post. q = Some actualQuery
                     \<and> kvs = pre @ (key, QFunction f) # post
                     \<and> f (actualQuery key) = Inl e))"
proof -
  have ek: "fst (every_key env kvs aq) = Inl e
      \<Longrightarrow> \<exists>pre key f post. kvs = pre @ (key, QFunction f) # post \<and> f (aq key) = Inl e"
    for kvs aq
  proof (induction kvs)
    case Nil
    then show ?case by simp
  next
    case (Cons kv kvs)
    obtain key expected where kv: "kv = (key, expected)" by (cases kv)
    show ?case
    proof (cases "fst (checker env key expected (aq key))")
      case (Inl e')
      with Cons.prems kv have e: "e' = e" by (auto split: prod.splits)
      from Inl obtain f where "expected = QFunction f" "f (aq key) = Inl e'"
        by (cases expected) (auto split: option.splits)
      with kv e show ?thesis by - (rule exI [of _ "[]"], auto)
    next
      case (Inr ok)
      with Cons.prems kv have "fst (every_key env kvs aq) = Inl e"
        by (auto split: prod.splits if_splits)
      from Cons.IH [OF this] obtain pre k f post
        where "kvs = pre @ (k, QFunction f) # post" "f (aq k) = Inl e" by blast
      then show ?thesis by - (rule exI [of _ "kv # pre"], auto)
    qed
  qed
  from assms show ?thesis
    by (auto simp: queryMatch_def split: option.splits if_splits dest!: ek)
qed


lemma every_key_predicate:
  "fst (every_key env pre q) = Inr True
    \<Longrightarrow> QueryPredicate key (q key) \<in> set (snd (every_key env (pre @ (key, QFunction f) # post) q))"
  by (induction pre) (auto split: prod.splits sum.splits if_splits)

lemma every_key_throws:
  "fst (every_key env pre q) = Inr True \<Longrightarrow> f (q key) = Inl e
    \<Longrightarrow> fst (every_key env (pre @ (key, QFunction f) # post) q) = Inl e"
  by (induction pre) (auto split: prod.splits sum.splits if_splits)

lemma queryMatch_undefined:
  "layer_query L = Some kvs \<Longrightarrow> kvs \<noteq> [] \<Longrightarrow> \<exists>msg. fst (queryMatch env L None) = Inl (TypeError msg)"
  by (simp add: queryMatch_def)

text \<open>
  C4, amended. \<open>Layer.match\<close> evaluates the query condition first; when that throws
  (the query argument is undefined or null while a condition is declared, or a
  function-valued condition that is reached throws), \<open>match\<close> throws the same error and
  leaves the layer as it was. Otherwise: when the path does not match, it returns false
  and sets \<open>params\<close> and \<open>path\<close> to undefined. When the path matches and every capture
  decodes, it sets \<open>params\<close> to the decoded capture values and \<open>path\<close> to the matched
  prefix, and returns the result of the query condition: a false result that comes from
  the query condition leaves \<open>params\<close> and \<open>path\<close> populated. The params are the empty
  object on the fast path for \<open>/\<close>, the decoded path under key 0 on the fast path for
  \<open>*\<close>, and otherwise the keys of the captures, each with the last defined value
  captured for it, or undefined when there is none (a key named \<open>__proto__\<close> is never
  stored). When the path matches and the path on the fast path for \<open>*\<close>, or a capture,
  does not decode, it throws the error of the first that does not, a URIError of status
  400; a capture without a key throws a TypeError. These are the only ways in which it
  does not return a boolean.
\<close>

theorem match_scratch:
  assumes m: "match env L path q = (r, L', evs)"
  shows
   "(\<forall>e. fst (queryMatch env L q) = Inl e \<longrightarrow> r = Inl e \<and> L' = L)
    \<and> (\<forall>kvs. layer_query L = Some kvs \<and> kvs \<noteq> [] \<and> q = None
          \<longrightarrow> (\<exists>msg. r = Inl (TypeError msg)))
    \<and> (\<forall>pre key f post actualQuery e.
          layer_query L = Some (pre @ (key, QFunction f) # post) \<and> q = Some actualQuery
          \<and> fst (every_key env pre actualQuery) = Inr True \<and> f (actualQuery key) = Inl e
          \<longrightarrow> r = Inl e)
    \<and> (\<forall>b. fst (queryMatch env L q) = Inr b
          \<and> (path = None
              \<or> (\<exists>p. path = Some p \<and> \<not> fast_slash L \<and> \<not> fast_star L \<and> layer_regexp L p = None))
          \<longrightarrow> r = Inr False \<and> layer_params L' = None \<and> layer_path L' = None)
    \<and> (\<forall>b p. fst (queryMatch env L q) = Inr b \<and> path = Some p \<and> fast_slash L
          \<longrightarrow> r = Inr b \<and> layer_params L' = Some [] \<and> layer_path L' = Some [])
    \<and> (\<forall>b p v. fst (queryMatch env L q) = Inr b \<and> path = Some p \<and> \<not> fast_slash L \<and> fast_star L
            \<and> decode_param env (Some p) = Inr v
          \<longrightarrow> r = Inr b \<and> layer_params L' = Some [(Idx 0, v)] \<and> layer_path L' = Some p)
    \<and> (\<forall>b p e. fst (queryMatch env L q) = Inr b \<and> path = Some p \<and> \<not> fast_slash L \<and> fast_star L
            \<and> decode_param env (Some p) = Inl e
          \<longrightarrow> r = Inl e)
    \<and> (\<forall>b p m0 caps ds. fst (queryMatch env L q) = Inr b \<and> path = Some p
            \<and> \<not> fast_slash L \<and> \<not> fast_star L \<and> layer_regexp L p = Some (m0, caps)
            \<and> length caps \<le> length (layer_keys L)
            \<and> map (decode_param env) caps = map Inr ds
          \<longrightarrow> r = Inr b \<and> layer_path L' = Some m0
              \<and> (\<exists>ps. layer_params L' = Some ps
                   \<and> (\<forall>k. has_key ps k
                              = (k \<in> set (take (length caps) (layer_keys L)) \<and> k \<noteq> Name ''__proto__'')
                          \<and> (k \<noteq> Name ''__proto__''
                               \<longrightarrow> get_prop ps k
                                      = (case filter (\<lambda>d. d \<noteq> None)
                                                (map snd (filter (\<lambda>kd. fst kd = k)
                                                            (zip (layer_keys L) ds))) of
                                           [] \<Rightarrow> None
                                         | d # defined \<Rightarrow> last (d # defined))))))
    \<and> (\<forall>b p m0 caps i e. fst (queryMatch env L q) = Inr b \<and> path = Some p
            \<and> \<not> fast_slash L \<and> \<not> fast_star L \<and> layer_regexp L p = Some (m0, caps)
            \<and> i < length caps \<and> i < length (layer_keys L)
            \<and> (\<forall>j < i. \<exists>d. decode_param env (caps ! j) = Inr d)
            \<and> decode_param env (caps ! i) = Inl e
          \<longrightarrow> r = Inl e)
    \<and> (\<forall>b p m0 caps. fst (queryMatch env L q) = Inr b \<and> path = Some p
            \<and> \<not> fast_slash L \<and> \<not> fast_star L \<and> layer_regexp L p = Some (m0, caps)
            \<and> length (layer_keys L) < length caps
            \<and> (\<forall>j < length (layer_keys L). \<exists>d. decode_param env (caps ! j) = Inr d)
          \<longrightarrow> (\<exists>msg. r = Inl (TypeError msg)))
    \<and> (\<forall>e. r = Inl e
          \<longrightarrow> fst (queryMatch env L q) = Inl e
              \<or> (\<exists>p. path = Some p \<and> \<not> fast_slash L
                    \<and> ((fast_star L \<and> decode_param env (Some p) = Inl e)
                        \<or> (\<not> fast_star L
                            \<and> (\<exists>m0 caps. layer_regexp L p = Some (m0, caps)
                                  \<and> ((\<exists>c \<in> set caps. decode_param env c = Inl e)
                                      \<or> length (layer_keys L) < length caps))))))
    \<and> (\<forall>e. fst (queryMatch env L q) = Inl e
          \<longrightarrow> (\<exists>kvs. layer_query L = Some kvs \<and> kvs \<noteq> []
                 \<and> (q = None
                     \<or> (\<exists>actualQuery pre key f post. q = Some actualQuery
                           \<and> kvs = pre @ (key, QFunction f) # post
                           \<and> f (actualQuery key) = Inl e))))
    \<and> (\<forall>c e. decode_param env c = Inl e \<longrightarrow> (\<exists>msg. e = URIError msg 400))"
proof -
  have c1: "\<forall>e. fst (queryMatch env L q) = Inl e \<longrightarrow> r = Inl e \<and> L' = L"
    using match_query_throws [OF m] by blast
  have c2: "\<forall>kvs. layer_query L = Some kvs \<and> kvs \<noteq> [] \<and> q = None
          \<longrightarrow> (\<exists>msg. r = Inl (TypeError msg))"
  proof (intro allI impI)
    fix kvs
    assume "layer_query L = Some kvs \<and> kvs \<noteq> [] \<and> q = None"
    then obtain msg where "fst (queryMatch env L q) = Inl (TypeError msg)"
      by (auto simp: queryMatch_def)
    with match_query_throws [OF m] show "\<exists>msg. r = Inl (TypeError msg)" by blast
  qed
  have c3: "\<forall>pre key f post actualQuery e.
          layer_query L = Some (pre @ (key, QFunction f) # post) \<and> q = Some actualQuery
          \<and> fst (every_key env pre actualQuery) = Inr True \<and> f (actualQuery key) = Inl e
          \<longrightarrow> r = Inl e"
  proof (intro allI impI)
    fix pre key f post actualQuery e
    assume a: "layer_query L = Some (pre @ (key, QFunction f) # post) \<and> q = Some actualQuery
          \<and> fst (every_key env pre actualQuery) = Inr True \<and> f (actualQuery key) = Inl e"
    then have "fst (queryMatch env L q) = Inl e"
      by (simp add: queryMatch_def every_key_throws)
    with match_query_throws [OF m] show "r = Inl e" by blast
  qed
  have c4: "\<forall>b. fst (queryMatch env L q) = Inr b
          \<and> (path = None
              \<or> (\<exists>p. path = Some p \<and> \<not> fast_slash L \<and> \<not> fast_star L \<and> layer_regexp L p = None))
          \<longrightarrow> r = Inr False \<and> layer_params L' = None \<and> layer_path L' = None"
    using match_unmatched [OF m] by blast
  have c5: "\<forall>b p. fst (queryMatch env L q) = Inr b \<and> path = Some p \<and> fast_slash L
          \<longrightarrow> r = Inr b \<and> layer_params L' = Some [] \<and> layer_path L' = Some []"
    using m by (auto dest: match_fast_slash)
  have c6: "\<forall>b p v. fst (queryMatch env L q) = Inr b \<and> path = Some p \<and> \<not> fast_slash L \<and> fast_star L
            \<and> decode_param env (Some p) = Inr v
          \<longrightarrow> r = Inr b \<and> layer_params L' = Some [(Idx 0, v)] \<and> layer_path L' = Some p"
    using m by (auto dest: match_fast_star)
  have c7: "\<forall>b p e. fst (queryMatch env L q) = Inr b \<and> path = Some p \<and> \<not> fast_slash L \<and> fast_star L
            \<and> decode_param env (Some p) = Inl e
          \<longrightarrow> r = Inl e"
    using m by (auto dest: match_fast_star)
  have c8: "\<forall>b p m0 caps ds. fst (queryMatch env L q) = Inr b \<and> path = Some p
            \<and> \<not> fast_slash L \<and> \<not> fast_star L \<and> layer_regexp L p = Some (m0, caps)
            \<and> length caps \<le> length (layer_keys L)
            \<and> map (decode_param env) caps = map Inr ds
          \<longrightarrow> r = Inr b \<and> layer_path L' = Some m0
              \<and> (\<exists>ps. layer_params L' = Some ps
                   \<and> (\<forall>k. has_key ps k
                              = (k \<in> set (take (length caps) (layer_keys L)) \<and> k \<noteq> Name ''__proto__'')
                          \<and> (k \<noteq> Name ''__proto__''
                               \<longrightarrow> get_prop ps k
                                      = (case filter (\<lambda>d. d \<noteq> None)
                                                (map snd (filter (\<lambda>kd. fst kd = k)
                                                            (zip (layer_keys L) ds))) of
                                           [] \<Rightarrow> None
                                         | d # defined \<Rightarrow> last (d # defined)))))"
  proof (intro allI impI)
    fix b p m0 caps ds
    assume a: "fst (queryMatch env L q) = Inr b \<and> path = Some p
            \<and> \<not> fast_slash L \<and> \<not> fast_star L \<and> layer_regexp L p = Some (m0, caps)
            \<and> length caps \<le> length (layer_keys L)
            \<and> map (decode_param env) caps = map Inr ds"
    with m have m': "match env L (Some p) q = (r, L', evs)" by simp
    from a have qm: "fst (queryMatch env L q) = Inr b"
      and nf: "\<not> fast_slash L" "\<not> fast_star L"
      and re: "layer_regexp L p = Some (m0, caps)"
      and len: "length caps \<le> length (layer_keys L)"
      and dec: "map (decode_param env) caps = map Inr ds"
      by simp_all
    show "r = Inr b \<and> layer_path L' = Some m0
              \<and> (\<exists>ps. layer_params L' = Some ps
                   \<and> (\<forall>k. has_key ps k
                              = (k \<in> set (take (length caps) (layer_keys L)) \<and> k \<noteq> Name ''__proto__'')
                          \<and> (k \<noteq> Name ''__proto__''
                               \<longrightarrow> get_prop ps k
                                      = (case filter (\<lambda>d. d \<noteq> None)
                                                (map snd (filter (\<lambda>kd. fst kd = k)
                                                            (zip (layer_keys L) ds))) of
                                           [] \<Rightarrow> None
                                         | d # defined \<Rightarrow> last (d # defined)))))"
      by (rule match_regexp [OF m' qm nf re len dec])
  qed
  have thr: "(\<forall>i e. i < length caps \<and> i < length (layer_keys L)
              \<and> (\<forall>j < i. \<exists>d. decode_param env (caps ! j) = Inr d)
              \<and> decode_param env (caps ! i) = Inl e
            \<longrightarrow> r = Inl e)
         \<and> (length (layer_keys L) < length caps
              \<and> (\<forall>j < length (layer_keys L). \<exists>d. decode_param env (caps ! j) = Inr d)
            \<longrightarrow> (\<exists>msg. r = Inl (TypeError msg)))"
    if "fst (queryMatch env L q) = Inr b" "path = Some p" "\<not> fast_slash L" "\<not> fast_star L"
      "layer_regexp L p = Some (m0, caps)" for b p m0 caps
    using match_regexp_throws [OF _ that(1,3,4,5)] m that(2) by simp
  have c9: "\<forall>b p m0 caps i e. fst (queryMatch env L q) = Inr b \<and> path = Some p
            \<and> \<not> fast_slash L \<and> \<not> fast_star L \<and> layer_regexp L p = Some (m0, caps)
            \<and> i < length caps \<and> i < length (layer_keys L)
            \<and> (\<forall>j < i. \<exists>d. decode_param env (caps ! j) = Inr d)
            \<and> decode_param env (caps ! i) = Inl e
          \<longrightarrow> r = Inl e"
  proof (intro allI impI, elim conjE)
    fix b p m0 caps i e
    assume a: "fst (queryMatch env L q) = Inr b" "path = Some p" "\<not> fast_slash L"
      "\<not> fast_star L" "layer_regexp L p = Some (m0, caps)"
      and b: "i < length caps" "i < length (layer_keys L)"
        "\<forall>j < i. \<exists>d. decode_param env (caps ! j) = Inr d"
        "decode_param env (caps ! i) = Inl e"
    from thr [OF a, THEN conjunct1, rule_format, of i e] b show "r = Inl e" by simp
  qed
  have c10: "\<forall>b p m0 caps. fst (queryMatch env L q) = Inr b \<and> path = Some p
            \<and> \<not> fast_slash L \<and> \<not> fast_star L \<and> layer_regexp L p = Some (m0, caps)
            \<and> length (layer_keys L) < length caps
            \<and> (\<forall>j < length (layer_keys L). \<exists>d. decode_param env (caps ! j) = Inr d)
          \<longrightarrow> (\<exists>msg. r = Inl (TypeError msg))"
  proof (intro allI impI, elim conjE)
    fix b p m0 caps
    assume a: "fst (queryMatch env L q) = Inr b" "path = Some p" "\<not> fast_slash L"
      "\<not> fast_star L" "layer_regexp L p = Some (m0, caps)"
      and b: "length (layer_keys L) < length caps"
        "\<forall>j < length (layer_keys L). \<exists>d. decode_param env (caps ! j) = Inr d"
    from thr [OF a, THEN conjunct2] b show "\<exists>msg. r = Inl (TypeError msg)" by simp
  qed
  have c11: "\<forall>e. r = Inl e
          \<longrightarrow> fst (queryMatch env L q) = Inl e
              \<or> (\<exists>p. path = Some p \<and> \<not> fast_slash L
                    \<and> ((fast_star L \<and> decode_param env (Some p) = Inl e)
                        \<or> (\<not> fast_star L
                            \<and> (\<exists>m0 caps. layer_regexp L p = Some (m0, caps)
                                  \<and> ((\<exists>c \<in> set caps. decode_param env c = Inl e)
                                      \<or> length (layer_keys L) < length caps)))))"
    using m by (auto dest: match_throws)
  have c12: "\<forall>e. fst (queryMatch env L q) = Inl e
          \<longrightarrow> (\<exists>kvs. layer_query L = Some kvs \<and> kvs \<noteq> []
                 \<and> (q = None
                     \<or> (\<exists>actualQuery pre key f post. q = Some actualQuery
                           \<and> kvs = pre @ (key, QFunction f) # post
                           \<and> f (actualQuery key) = Inl e)))"
    using queryMatch_throws [of env L q] by blast
  have c13: "\<forall>c e. decode_param env c = Inl e \<longrightarrow> (\<exists>msg. e = URIError msg 400)"
    by (auto dest: decode_param_error)
  from c1 c2 c3 c4 c5 c6 c7 c8 c9 c10 c11 c12 c13 show ?thesis by (intro conjI)
qed

lemma user_layer_regexp:
  "layer_regexp user_layer ''/user/%20'' = Some (''/user/%20'', [Some ''%20''])"
  "layer_regexp user_layer ''/user/%zz'' = Some (''/user/%zz'', [Some ''%zz''])"
  "layer_regexp user_layer ''/other'' = None"
  "\<not> fast_slash user_layer" "\<not> fast_star user_layer" "layer_keys user_layer = [Name ''id'']"
  "layer_query user_layer = None"
  by (simp_all add: user_layer_def)

lemma sample_decode:
  "decode_param sample_env (Some ''%20'') = Inr (Some '' '')"
  "decode_param sample_env (Some ''%zz'')
     = Inl (URIError (''Failed to decode param '' @ [CHR 0x27] @ ''%zz'' @ [CHR 0x27]) 400)"
  by (simp_all add: decode_param_def sample_env_def)

theorem match_scratch_witness:
  "fst (match sample_env user_layer (Some ''/user/%20'') (Some no_query)) = Inr True
   \<and> layer_path (fst (snd (match sample_env user_layer (Some ''/user/%20'') (Some no_query))))
       = Some ''/user/%20''
   \<and> (\<exists>ps. layer_params (fst (snd (match sample_env user_layer (Some ''/user/%20'') (Some no_query))))
              = Some ps
           \<and> get_prop ps (Name ''id'') = Some '' '' \<and> \<not> has_key ps (Idx 0))
   \<and> fst (match sample_env user_layer (Some ''/other'') (Some no_query)) = Inr False
   \<and> layer_params (fst (snd (match sample_env user_layer (Some ''/other'') (Some no_query)))) = None
   \<and> fst (match sample_env user_layer (Some ''/user/%zz'') (Some no_query))
       = Inl (URIError (''Failed to decode param '' @ [CHR 0x27] @ ''%zz'' @ [CHR 0x27]) 400)
   \<and> (\<exists>msg. fst (match sample_env started_layer (Some ''/'') None) = Inl (TypeError msg))"
proof -
  obtain r L' evs
    where m: "match sample_env user_layer (Some ''/user/%20'') (Some no_query) = (r, L', evs)"
    by (cases "match sample_env user_layer (Some ''/user/%20'') (Some no_query)") blast
  obtain r2 L2 evs2
    where m2: "match sample_env user_layer (Some ''/other'') (Some no_query) = (r2, L2, evs2)"
    by (cases "match sample_env user_layer (Some ''/other'') (Some no_query)") blast
  obtain r3 L3 evs3
    where m3: "match sample_env user_layer (Some ''/user/%zz'') (Some no_query) = (r3, L3, evs3)"
    by (cases "match sample_env user_layer (Some ''/user/%zz'') (Some no_query)") blast
  obtain r4 L4 evs4
    where m4: "match sample_env started_layer (Some ''/'') None = (r4, L4, evs4)"
    by (cases "match sample_env started_layer (Some ''/'') None") blast
  have qm: "fst (queryMatch sample_env user_layer (Some no_query)) = Inr True"
    by (simp add: queryMatch_def user_layer_regexp)
  have dec: "map (decode_param sample_env) [Some ''%20''] = map Inr [Some '' '']"
    by (simp add: sample_decode)
  note t = match_scratch [OF m]
  from t [THEN conjunct2, THEN conjunct2, THEN conjunct2, THEN conjunct2, THEN conjunct2,
          THEN conjunct2, THEN conjunct2, THEN conjunct1, rule_format,
          of True "''/user/%20''" "''/user/%20''" "[Some ''%20'']" "[Some '' '']"]
  have "r = Inr True \<and> layer_path L' = Some ''/user/%20''
      \<and> (\<exists>ps. layer_params L' = Some ps
           \<and> (\<forall>k. has_key ps k
                      = (k \<in> set (take (length [Some ''%20'']) (layer_keys user_layer)) \<and> k \<noteq> Name ''__proto__'')
                  \<and> (k \<noteq> Name ''__proto__''
                       \<longrightarrow> get_prop ps k
                              = (case filter (\<lambda>d. d \<noteq> None)
                                        (map snd (filter (\<lambda>kd. fst kd = k)
                                                    (zip (layer_keys user_layer) [Some '' '']))) of
                                   [] \<Rightarrow> None
                                 | d # defined \<Rightarrow> last (d # defined)))))"
    using qm dec by (simp add: user_layer_regexp)
  then obtain ps where ps: "r = Inr True" "layer_path L' = Some ''/user/%20''"
    "layer_params L' = Some ps"
    "\<forall>k. has_key ps k
            = (k \<in> set (take (length [Some ''%20'']) (layer_keys user_layer)) \<and> k \<noteq> Name ''__proto__'')
        \<and> (k \<noteq> Name ''__proto__''
             \<longrightarrow> get_prop ps k
                    = (case filter (\<lambda>d. d \<noteq> None)
                              (map snd (filter (\<lambda>kd. fst kd = k)
                                          (zip (layer_keys user_layer) [Some '' '']))) of
                         [] \<Rightarrow> None
                       | d # defined \<Rightarrow> last (d # defined)))"
    by blast
  from ps(4) [rule_format, of "Name ''id''"] ps(4) [rule_format, of "Idx 0"]
  have "get_prop ps (Name ''id'') = Some '' ''" "\<not> has_key ps (Idx 0)"
    by (simp_all add: user_layer_regexp)
  with ps have a: "r = Inr True \<and> layer_path L' = Some ''/user/%20''
      \<and> (\<exists>ps. layer_params L' = Some ps \<and> get_prop ps (Name ''id'') = Some '' ''
             \<and> \<not> has_key ps (Idx 0))"
    by blast
  from match_scratch [OF m2, THEN conjunct2, THEN conjunct2, THEN conjunct2, THEN conjunct1,
                      rule_format, of True] qm
  have b: "r2 = Inr False \<and> layer_params L2 = None"
    by (simp add: user_layer_regexp)
  from match_scratch [OF m3, THEN conjunct2, THEN conjunct2, THEN conjunct2, THEN conjunct2,
          THEN conjunct2, THEN conjunct2, THEN conjunct2, THEN conjunct2, THEN conjunct1,
          rule_format, of True "''/user/%zz''" "''/user/%zz''" "[Some ''%zz'']" 0] qm
  have c: "r3 = Inl (URIError (''Failed to decode param '' @ [CHR 0x27] @ ''%zz'' @ [CHR 0x27]) 400)"
    by (simp add: user_layer_regexp sample_decode)
  from match_scratch [OF m4, THEN conjunct2, THEN conjunct1, rule_format,
                      of "[(''state'', QString ''started'')]"]
  have d: "\<exists>msg. r4 = Inl (TypeError msg)"
    by (simp add: started_layer_fast)
  from a b c d show ?thesis by (simp add: m m2 m3 m4)
qed

lemma match_events: "snd (snd (match env L path q)) = snd (queryMatch env L q)"
  by (auto simp: match_def split: prod.splits option.splits sum.splits)

lemma match_true:
  "fst (match env L path q) = Inr True
    \<Longrightarrow> fst (queryMatch env L q) = Inr True
        \<and> (\<exists>p. path = Some p \<and> (fast_slash L \<or> fast_star L \<or> layer_regexp L p \<noteq> None))"
  by (auto simp: match_def split: prod.splits option.splits sum.splits if_splits)

lemma match_query_error:
  "fst (queryMatch env L q) = Inl e \<Longrightarrow> fst (match env L path q) = Inl e"
  by (auto simp: match_def split: prod.splits sum.splits)

text \<open>
  C10: \<open>Layer.match\<close> evaluates the query condition first and whatever the path is: the
  predicate calls it makes are those of \<open>queryMatch\<close> on the same query, for every path,
  matching or not, and also when decoding throws. It returns true only if the query
  condition holds and the path matches, and it throws whenever the query condition
  throws. A function-valued condition that \<open>every\<close> reaches (the conditions declared
  before it hold) is called with the actual value of its key, also when the path does
  not match.
\<close>

theorem match_query_independent:
  "snd (snd (match env L path q)) = snd (queryMatch env L q)
   \<and> (fst (match env L path q) = Inr True
       \<longrightarrow> fst (queryMatch env L q) = Inr True
           \<and> (\<exists>p. path = Some p \<and> (fast_slash L \<or> fast_star L \<or> layer_regexp L p \<noteq> None)))
   \<and> (\<forall>e. fst (queryMatch env L q) = Inl e \<longrightarrow> fst (match env L path q) = Inl e)
   \<and> (\<forall>pre key f post actualQuery.
         layer_query L = Some (pre @ (key, QFunction f) # post) \<and> q = Some actualQuery
         \<and> fst (every_key env pre actualQuery) = Inr True
         \<longrightarrow> QueryPredicate key (actualQuery key) \<in> set (snd (snd (match env L path q))))"
proof -
  have "QueryPredicate key (actualQuery key) \<in> set (snd (snd (match env L path q)))"
    if "layer_query L = Some (pre @ (key, QFunction f) # post)" "q = Some actualQuery"
      "fst (every_key env pre actualQuery) = Inr True"
    for pre key f post actualQuery
    using that by (simp add: match_events queryMatch_def every_key_predicate)
  then show ?thesis
    using match_events [of env L path q] match_true [of env L path q]
      match_query_error [of env L q _ path] by blast
qed

lemma predicate_layer_simps:
  "layer_regexp predicate_layer ''/user/42'' = Some (''/user/42'', [Some ''42''])"
  "layer_regexp predicate_layer ''/other'' = None"
  "\<not> fast_slash predicate_layer" "\<not> fast_star predicate_layer"
  "layer_keys predicate_layer = [Name ''id'']"
  "layer_query predicate_layer
     = Some ([] @ (''state'', QFunction (\<lambda>actual. Inr (actual = Some ''started''))) # [])"
  by (simp_all add: predicate_layer_def user_layer_def)

theorem match_query_independent_witness:
  "fst (match sample_env predicate_layer (Some ''/other'') (Some started_query)) = Inr False
   \<and> QueryPredicate ''state'' (Some ''started'')
       \<in> set (snd (snd (match sample_env predicate_layer (Some ''/other'') (Some started_query))))
   \<and> fst (match sample_env predicate_layer (Some ''/user/42'') (Some started_query)) = Inr True
   \<and> fst (queryMatch sample_env predicate_layer (Some started_query)) = Inr True"
proof -
  have t: "fst (match sample_env predicate_layer (Some ''/user/42'') (Some started_query)) = Inr True"
    by (simp add: match_def queryMatch_def predicate_layer_def user_layer_def started_query_def
        decode_param_def sample_env_def has_key_def)
  have f: "fst (match sample_env predicate_layer (Some ''/other'') (Some started_query)) = Inr False"
    by (simp add: match_def queryMatch_def predicate_layer_def user_layer_def started_query_def)
  have e: "fst (every_key sample_env [] started_query) = Inr True" by simp
  from match_query_independent [of sample_env predicate_layer "Some ''/other''" "Some started_query"]
  have "QueryPredicate ''state'' (started_query ''state'')
       \<in> set (snd (snd (match sample_env predicate_layer (Some ''/other'') (Some started_query))))"
    using predicate_layer_simps(6) e by blast
  moreover
  from match_query_independent [of sample_env predicate_layer "Some ''/user/42''" "Some started_query"] t
  have "fst (queryMatch sample_env predicate_layer (Some started_query)) = Inr True" by blast
  ultimately show ?thesis using t f by (simp add: started_query_def)
qed

section \<open>Properties of Route\<close>

lemma options_post_get_route: "options post_get_route = [''POST'', ''GET'', ''HEAD'']"
  by (simp add: post_get_route_def options_def Route_get_def Route_post_def Route_method_def
      shift_query_def sample_fn_def js_truthy_def is_function_def new_Route_def methods_flag_def
      toUpperCase_def toUpperCase_char_def Object_prototype_def Let_def)

text \<open>
  C7, as stated, fails: the verbs come in the order in which they were declared, and
  nothing sorts them. After \<open>post\<close> then \<open>get\<close> the result is POST, GET, HEAD.
\<close>

theorem options_sorted_counterexample:
  "options post_get_route = [''POST'', ''GET'', ''HEAD''] \<and> \<not> sorted (options post_get_route)"
  by (simp add: options_post_get_route)

lemma lower_upper_char: "toLowerCase_char c = c \<Longrightarrow> toLowerCase_char (toUpperCase_char c) = c"
  unfolding toLowerCase_char_def toUpperCase_char_def
  by (simp split: if_splits)

lemma lower_upper: "toLowerCase s = s \<Longrightarrow> toLowerCase (toUpperCase s) = s"
  by (induction s) (auto simp: toLowerCase_def toUpperCase_def lower_upper_char)

lemma upper_inj_on_lower: "inj_on toUpperCase {s. toLowerCase s = s}"
  by (rule inj_on_inverseI [where g = toLowerCase]) (simp add: lower_upper)

lemma methods_flag_iff:
  "distinct (map fst (route_methods R)) \<Longrightarrow> list_all snd (route_methods R)
    \<Longrightarrow> name \<notin> set Object_prototype
    \<Longrightarrow> methods_flag R name \<longleftrightarrow> name \<in> fst ` set (route_methods R)"
proof -
  assume d: "distinct (map fst (route_methods R))" and t: "list_all snd (route_methods R)"
    and own: "name \<notin> set Object_prototype"
  show ?thesis
  proof
    assume "methods_flag R name"
    with own have "map_of (route_methods R) name = Some True"
      by (simp add: methods_flag_def split: option.splits)
    then have "(name, True) \<in> set (route_methods R)" by (rule map_of_SomeD)
    then show "name \<in> fst ` set (route_methods R)" by force
  next
    assume "name \<in> fst ` set (route_methods R)"
    then obtain v where mem: "(name, v) \<in> set (route_methods R)" by auto
    with t have "v" by (auto simp: list_all_iff)
    with mem d have "map_of (route_methods R) name = Some True" by simp
    then show "methods_flag R name" by (simp add: methods_flag_def)
  qed
qed

lemma toUpperCase_head: "toUpperCase ''head'' = ''HEAD''"
  by (simp add: toUpperCase_def toUpperCase_char_def)

lemma toLowerCase_head: "toLowerCase ''head'' = ''head''"
  by (simp add: toLowerCase_def toLowerCase_char_def)

text \<open>
  C7, amended: for a Route whose \<open>methods\<close> were written by the verb methods,
  \<open>_options()\<close> returns the declared verbs in upper case, each once, in the order of
  their first declaration, with HEAD appended at the end whenever GET is declared and
  HEAD is not.
\<close>

theorem options_spec:
  assumes wf: "methods_wf R"
  shows "options R =
           map toUpperCase (map fst (route_methods R))
             @ (if ''get'' \<in> fst ` set (route_methods R) \<and> ''head'' \<notin> fst ` set (route_methods R)
                then [''HEAD''] else [])
         \<and> distinct (options R)"
proof -
  let ?keys = "map fst (route_methods R)"
  let ?add = "''get'' \<in> fst ` set (route_methods R) \<and> ''head'' \<notin> fst ` set (route_methods R)"
  let ?arr = "?keys @ (if ?add then [''head''] else [])"
  from wf have d: "distinct ?keys" and t: "list_all snd (route_methods R)"
    and l: "list_all (\<lambda>kv. toLowerCase (fst kv) = fst kv) (route_methods R)"
    by (simp_all add: methods_wf_def)
  have flag: "methods_flag R name \<longleftrightarrow> name \<in> fst ` set (route_methods R)"
    if "name \<notin> set Object_prototype" for name
    using d t that by (rule methods_flag_iff)
  have "''get'' \<notin> set Object_prototype" "''head'' \<notin> set Object_prototype"
    by (simp_all add: Object_prototype_def)
  then have opts: "options R = map toUpperCase ?arr"
    by (simp add: options_def Let_def flag)
  have da: "distinct ?arr" using d by auto
  have "set ?arr \<subseteq> {s. toLowerCase s = s}"
    using l by (auto simp: list_all_iff toLowerCase_head)
  with upper_inj_on_lower have "inj_on toUpperCase (set ?arr)"
    by (rule inj_on_subset)
  with da have "distinct (map toUpperCase ?arr)"
    by (rule distinct_map [THEN iffD2, OF conjI])
  with opts show ?thesis by (simp add: toUpperCase_head)
qed

lemma post_get_route_methods: "route_methods post_get_route = [(''post'', True), (''get'', True)]"
  by (simp add: post_get_route_def Route_get_def Route_post_def Route_method_def
      shift_query_def sample_fn_def js_truthy_def is_function_def new_Route_def Let_def)

theorem options_spec_witness:
  "methods_wf post_get_route
   \<and> options post_get_route = [''POST'', ''GET'', ''HEAD'']
   \<and> distinct (options post_get_route)"
proof -
  have wf: "methods_wf post_get_route"
    by (simp add: methods_wf_def post_get_route_methods toLowerCase_def toLowerCase_char_def)
  from options_spec [OF wf] show ?thesis
    using wf by (simp add: post_get_route_methods toUpperCase_def toUpperCase_char_def)
qed

lemma in_set_update:
  "kv \<in> set (AList.update k v ps) \<Longrightarrow> kv = (k, v) \<or> kv \<in> set ps"
  by (induction ps) (auto split: if_splits)

text \<open>The verb methods keep \<open>methods\<close> in that shape, starting from a new Route.\<close>

lemma new_Route_wf: "methods_wf (new_Route path)"
  by (simp add: methods_wf_def new_Route_def)

lemma method_loop_wf:
  "methods_wf R \<Longrightarrow> toLowerCase methodName = methodName
     \<Longrightarrow> methods_wf (fst (method_loop rf methodName query fns R))"
proof (induction fns arbitrary: R)
  case Nil
  then show ?case by simp
next
  case (Cons fn fns)
  show ?case
  proof (cases fn)
    case (AFunction fname f pre)
    let ?R = "R\<lparr>route_methods :=
                   (if methodName = ''__proto__'' then route_methods R
                    else AList.update methodName True (route_methods R)),
                 route_stack := route_stack R @ [assign_query rf query
                   ((new_Layer rf (AString ''/'')
                          \<lparr>opt_sensitive = None, opt_strict = None, opt_end = None\<rparr> fname f)
                       \<lparr>layer_method := (if methodName = ''_all'' then None else Some methodName)\<rparr>)]\<rparr>"
    have "methods_wf ?R"
      using Cons.prems
      by (auto simp: methods_wf_def distinct_update list_all_iff dest!: in_set_update)
    from Cons.IH [OF this Cons.prems(2)] show ?thesis
      using AFunction by (simp add: Let_def)
  qed (use Cons.prems in simp_all)
qed

lemma Route_method_wf:
  "methods_wf R \<Longrightarrow> toLowerCase methodName = methodName
     \<Longrightarrow> methods_wf (fst (Route_method rf methodName middlewares R))"
  by (simp add: Route_method_def method_loop_wf split: prod.splits)

section \<open>Properties of parameter merging\<close>

lemma assign_lookup:
  "map_of (assign par ps) k = (case map_of ps k of Some v \<Rightarrow> Some v | None \<Rightarrow> map_of par k)"
  by (simp add: assign_def merge_conv' map_add_def)

lemma first_gap_props:
  "i \<le> first_gap ps i \<and> \<not> has_key ps (Idx (first_gap ps i))
   \<and> (\<forall>j. i \<le> j \<and> j < first_gap ps i \<longrightarrow> has_key ps (Idx j))"
proof (induction ps i rule: first_gap.induct)
  case (1 ps i)
  show ?case
  proof (cases "has_key ps (Idx i)")
    case True
    then have eq: "first_gap ps i = first_gap ps (Suc i)" by (subst first_gap.simps) simp
    from "1.IH" [OF True] have a: "Suc i \<le> first_gap ps (Suc i)"
      and b: "\<not> has_key ps (Idx (first_gap ps (Suc i)))"
      and c: "\<And>j. Suc i \<le> j \<Longrightarrow> j < first_gap ps (Suc i) \<Longrightarrow> has_key ps (Idx j)"
      by auto
    have "has_key ps (Idx j)" if "i \<le> j" "j < first_gap ps (Suc i)" for j
    proof (cases "j = i")
      case True
      with \<open>has_key ps (Idx i)\<close> show ?thesis by simp
    next
      case False
      with that have "Suc i \<le> j" by simp
      with that show ?thesis by (simp add: c)
    qed
    with a b show ?thesis unfolding eq by auto
  next
    case False
    then have "first_gap ps i = i" by (subst first_gap.simps) simp
    with False show ?thesis by auto
  qed
qed

lemma first_gap_pos: "has_key ps (Idx 0) \<Longrightarrow> 0 < first_gap ps 0"
  using first_gap_props [of 0 ps] by (cases "first_gap ps 0") auto

lemma offset_indices_name:
  "map_of (offset_indices m n ps) (Name s) = map_of ps (Name s)"
  by (induction m n ps rule: offset_indices.induct)
     (auto simp: Let_def update_conv' delete_conv')

lemma offset_indices_idx:
  "0 < n \<Longrightarrow>
   map_of (offset_indices m n ps) (Idx j) =
     (if n \<le> j \<and> j < m + n then Some (get_prop ps (Idx (j - n)))
      else if j < m \<and> j < n then None
      else map_of ps (Idx j))"
proof (induction m n ps arbitrary: j rule: offset_indices.induct)
  case (1 n ps)
  then show ?case by auto
next
  case (2 i n ps)
  define ps1 where "ps1 =
    (let ps' = AList.update (Idx (i + n)) (get_prop ps (Idx i)) ps
     in if i < n then AList.delete (Idx i) ps' else ps')"
  have step: "offset_indices (Suc i) n ps = offset_indices i n ps1"
    by (simp add: ps1_def)
  have look: "map_of ps1 (Idx k) =
      (if k = i \<and> i < n then None
       else if k = i + n then Some (get_prop ps (Idx i))
       else map_of ps (Idx k))" for k
    using "2.prems" by (auto simp: ps1_def Let_def update_conv' delete_conv')
  have getp: "get_prop ps1 (Idx k) = get_prop ps (Idx k)" if "k < i" for k
    using that "2.prems" by (simp add: get_prop_def look)
  have IH: "map_of (offset_indices i n ps1) (Idx j) =
     (if n \<le> j \<and> j < i + n then Some (get_prop ps1 (Idx (j - n)))
      else if j < i \<and> j < n then None
      else map_of ps1 (Idx j))"
    using "2.IH" [OF "2.prems"] by (simp add: ps1_def)
  show ?case
    unfolding step IH
    using "2.prems" by (auto simp: look getp)
qed

lemma first_gap_two_captures: "first_gap two_captures 0 = 2"
  by (simp add: first_gap.simps two_captures_def has_key_def)

lemma first_gap_gapped_parent: "first_gap gapped_parent 0 = 1"
  by (simp add: first_gap.simps gapped_parent_def has_key_def)

text \<open>
  C5, as stated, fails: the child's indices continue after the first index that the
  parent lacks, not after the parent's highest index, and a parent capture beyond that
  gap is overwritten. With the parent \<open>{0: 'a', 2: 'b'}\<close> and the child
  \<open>{0: 'c', 1: 'd'}\<close> the result is \<open>{0: 'a', 1: 'c', 2: 'd'}\<close>: the child's captures
  are at 1 and 2, not at 3 and 4, and the parent's \<open>'b'\<close> is lost.
\<close>

theorem mergeParams_overwrites_counterexample:
  "map_of gapped_parent (Idx 2) = Some (Some ''b'')
   \<and> map_of (mergeParams two_captures (Some gapped_parent)) (Idx 0) = Some (Some ''a'')
   \<and> map_of (mergeParams two_captures (Some gapped_parent)) (Idx 1) = Some (Some ''c'')
   \<and> map_of (mergeParams two_captures (Some gapped_parent)) (Idx 2) = Some (Some ''d'')
   \<and> map_of (mergeParams two_captures (Some gapped_parent)) (Idx 3) = None"
  by (simp add: mergeParams_def first_gap_two_captures first_gap_gapped_parent Let_def)
     (simp add: two_captures_def gapped_parent_def has_key_def assign_def get_prop_def
       numeral_2_eq_2)

text \<open>
  C5, amended: with an undefined parent the child's params are returned. If either side
  has no positional capture at index 0, the mappings are merged key-wise with the child's
  values taking precedence. If both sides have one, let \<open>n\<close> and \<open>m\<close> be the first
  index missing from the child and from the parent (so \<open>m\<close> is one more than the
  parent's highest index when the parent's indices have no gap): the child's captures
  \<open>0 .. n - 1\<close> are renumbered to \<open>m .. m + n - 1\<close> in the same order, the parent's
  captures at the indices below both \<open>n\<close> and \<open>m\<close> are kept, and every other key,
  named or positional, is merged with the child's value taking precedence.
\<close>

theorem mergeParams_spec:
  "mergeParams ps None = ps
   \<and> (\<not> has_key ps (Idx 0) \<or> \<not> has_key par (Idx 0)
        \<longrightarrow> (\<forall>k. map_of (mergeParams ps (Some par)) k
                    = (case map_of ps k of Some v \<Rightarrow> Some v | None \<Rightarrow> map_of par k)))
   \<and> (has_key ps (Idx 0) \<and> has_key par (Idx 0)
        \<longrightarrow> (let n = first_gap ps 0; m = first_gap par 0
             in 0 < n \<and> 0 < m
                \<and> (\<forall>i < n. has_key ps (Idx i)) \<and> \<not> has_key ps (Idx n)
                \<and> (\<forall>j < m. has_key par (Idx j)) \<and> \<not> has_key par (Idx m)
                \<and> (\<forall>i < n. map_of (mergeParams ps (Some par)) (Idx (m + i)) = map_of ps (Idx i))
                \<and> (\<forall>j. j < m \<and> j < n
                       \<longrightarrow> map_of (mergeParams ps (Some par)) (Idx j) = map_of par (Idx j))
                \<and> (\<forall>j. (n \<le> j \<and> j < m) \<or> n + m \<le> j
                       \<longrightarrow> map_of (mergeParams ps (Some par)) (Idx j)
                           = (case map_of ps (Idx j) of Some v \<Rightarrow> Some v
                              | None \<Rightarrow> map_of par (Idx j)))
                \<and> (\<forall>s. map_of (mergeParams ps (Some par)) (Name s)
                         = (case map_of ps (Name s) of Some v \<Rightarrow> Some v
                            | None \<Rightarrow> map_of par (Name s)))))"
proof -
  have none: "mergeParams ps None = ps" by (simp add: mergeParams_def)
  have simple: "\<forall>k. map_of (mergeParams ps (Some par)) k
                    = (case map_of ps k of Some v \<Rightarrow> Some v | None \<Rightarrow> map_of par k)"
    if "\<not> has_key ps (Idx 0) \<or> \<not> has_key par (Idx 0)"
    using that by (auto simp: mergeParams_def assign_lookup)
  have both: "let n = first_gap ps 0; m = first_gap par 0
             in 0 < n \<and> 0 < m
                \<and> (\<forall>i < n. has_key ps (Idx i)) \<and> \<not> has_key ps (Idx n)
                \<and> (\<forall>j < m. has_key par (Idx j)) \<and> \<not> has_key par (Idx m)
                \<and> (\<forall>i < n. map_of (mergeParams ps (Some par)) (Idx (m + i)) = map_of ps (Idx i))
                \<and> (\<forall>j. j < m \<and> j < n
                       \<longrightarrow> map_of (mergeParams ps (Some par)) (Idx j) = map_of par (Idx j))
                \<and> (\<forall>j. (n \<le> j \<and> j < m) \<or> n + m \<le> j
                       \<longrightarrow> map_of (mergeParams ps (Some par)) (Idx j)
                           = (case map_of ps (Idx j) of Some v \<Rightarrow> Some v
                              | None \<Rightarrow> map_of par (Idx j)))
                \<and> (\<forall>s. map_of (mergeParams ps (Some par)) (Name s)
                         = (case map_of ps (Name s) of Some v \<Rightarrow> Some v
                            | None \<Rightarrow> map_of par (Name s)))"
    if h: "has_key ps (Idx 0) \<and> has_key par (Idx 0)"
  proof -
    define n where "n = first_gap ps 0"
    define m where "m = first_gap par 0"
    have n0: "0 < n" and m0: "0 < m"
      using h by (simp_all add: n_def m_def first_gap_pos)
    have pn: "\<forall>i < n. has_key ps (Idx i)" "\<not> has_key ps (Idx n)"
      using first_gap_props [of 0 ps] by (simp_all add: n_def)
    have pm: "\<forall>j < m. has_key par (Idx j)" "\<not> has_key par (Idx m)"
      using first_gap_props [of 0 par] by (simp_all add: m_def)
    have merged: "mergeParams ps (Some par) = assign par (offset_indices n m ps)"
      using h by (simp add: mergeParams_def n_def m_def Let_def)
    have idx: "map_of (mergeParams ps (Some par)) (Idx j) =
        (case (if m \<le> j \<and> j < n + m then Some (get_prop ps (Idx (j - m)))
               else if j < n \<and> j < m then None
               else map_of ps (Idx j)) of
           Some v \<Rightarrow> Some v | None \<Rightarrow> map_of par (Idx j))" for j
      by (simp add: merged assign_lookup offset_indices_idx [OF m0])
    have moved: "\<forall>i < n. map_of (mergeParams ps (Some par)) (Idx (m + i)) = map_of ps (Idx i)"
    proof (intro allI impI)
      fix i assume i: "i < n"
      with pn(1) have "has_key ps (Idx i)" by simp
      then have "map_of ps (Idx i) = Some (get_prop ps (Idx i))"
        by (auto simp: has_key_def get_prop_def)
      with i show "map_of (mergeParams ps (Some par)) (Idx (m + i)) = map_of ps (Idx i)"
        by (simp add: idx)
    qed
    have kept: "\<forall>j. j < m \<and> j < n
        \<longrightarrow> map_of (mergeParams ps (Some par)) (Idx j) = map_of par (Idx j)"
      by (simp add: idx)
    have rest: "\<forall>j. (n \<le> j \<and> j < m) \<or> n + m \<le> j
        \<longrightarrow> map_of (mergeParams ps (Some par)) (Idx j)
            = (case map_of ps (Idx j) of Some v \<Rightarrow> Some v | None \<Rightarrow> map_of par (Idx j))"
      by (auto simp: idx)
    have names: "\<forall>s. map_of (mergeParams ps (Some par)) (Name s)
        = (case map_of ps (Name s) of Some v \<Rightarrow> Some v | None \<Rightarrow> map_of par (Name s))"
      by (simp add: merged assign_lookup offset_indices_name)
    from n0 m0 pn pm moved kept rest names show ?thesis
      unfolding Let_def n_def [symmetric] m_def [symmetric] by (intro conjI)
  qed
  from none simple both show ?thesis by blast
qed

lemma first_gap_child_params: "first_gap child_params 0 = 1" "first_gap parent_params 0 = 1"
  by (simp_all add: first_gap.simps child_params_def parent_params_def has_key_def)

theorem mergeParams_spec_witness:
  "has_key child_params (Idx 0) \<and> has_key parent_params (Idx 0)
   \<and> map_of (mergeParams child_params (Some parent_params)) (Idx 0) = Some (Some ''a'')
   \<and> map_of (mergeParams child_params (Some parent_params)) (Idx 1) = Some (Some ''c'')
   \<and> map_of (mergeParams child_params (Some parent_params)) (Name ''id'') = Some (Some ''x'')
   \<and> \<not> has_key [(Name ''id'', Some ''x'')] (Idx 0)
   \<and> map_of (mergeParams [(Name ''id'', Some ''x'')] (Some parent_params)) (Name ''id'')
       = Some (Some ''x'')
   \<and> map_of (mergeParams [(Name ''id'', Some ''x'')] (Some parent_params)) (Idx 0)
       = Some (Some ''a'')"
proof -
  have h: "has_key child_params (Idx 0) \<and> has_key parent_params (Idx 0)"
    by (simp add: child_params_def parent_params_def has_key_def)
  have look: "map_of child_params (Idx 0) = Some (Some ''c'')"
    "map_of child_params (Name ''id'') = Some (Some ''x'')"
    "map_of parent_params (Idx 0) = Some (Some ''a'')"
    by (simp_all add: child_params_def parent_params_def)
  from mergeParams_spec [of child_params parent_params] h
  have a: "(\<forall>i < 1. map_of (mergeParams child_params (Some parent_params)) (Idx (1 + i))
                = map_of child_params (Idx i))
      \<and> (\<forall>j. j < 1 \<and> j < 1
            \<longrightarrow> map_of (mergeParams child_params (Some parent_params)) (Idx j)
                = map_of parent_params (Idx j))
      \<and> (\<forall>s. map_of (mergeParams child_params (Some parent_params)) (Name s)
              = (case map_of child_params (Name s) of Some v \<Rightarrow> Some v
                 | None \<Rightarrow> map_of parent_params (Name s)))"
    by (simp add: Let_def first_gap_child_params)
  then have a': "map_of (mergeParams child_params (Some parent_params)) (Idx 0) = Some (Some ''a'')
      \<and> map_of (mergeParams child_params (Some parent_params)) (Idx 1) = Some (Some ''c'')
      \<and> map_of (mergeParams child_params (Some parent_params)) (Name ''id'') = Some (Some ''x'')"
    by (simp add: look)
  have nh: "\<not> has_key [(Name ''id'', Some ''x'')] (Idx 0)" by (simp add: has_key_def)
  from mergeParams_spec [of "[(Name ''id'', Some ''x'')]" parent_params] nh
  have b: "\<forall>k. map_of (mergeParams [(Name ''id'', Some ''x'')] (Some parent_params)) k
      = (case map_of [(Name ''id'', Some ''x'')] k of Some v \<Rightarrow> Some v
         | None \<Rightarrow> map_of parent_params k)"
    by blast
  from h a' nh show ?thesis by (simp add: b look)
qed

section \<open>Properties of Router\<close>

lemma router_done_restored:
  "router_done fr st = (st', out) \<Longrightarrow> out = Next None \<and> restored fr st'"
  by (auto simp: router_done_def restored_def Let_def split: prod.splits)

lemma restore_url_vals: "restore_url fr c = (fr', c') \<Longrightarrow> vals fr' = vals fr"
  by (auto simp: restore_url_def Let_def split: if_splits)

lemma trim_url_vals: "trim_url fr lp c = (fr', c') \<Longrightarrow> vals fr' = vals fr"
  by (auto simp: trim_url_def Let_def)

lemma router_next_unfold:
  assumes "router_next env self fr stack signal st = (st', Next s)"
  shows "(\<exists>fr2 st2. vals fr2 = vals fr \<and> router_done fr2 st2 = (st', Next s))
    \<or> (\<exists>fr' rest sig' st''. vals fr' = vals fr \<and> length rest < length stack
          \<and> router_next env self fr' rest sig' st'' = (st', Next s))
    \<or> (\<exists>fr' rest layer lp path st''. vals fr' = vals fr \<and> length rest < length stack
          \<and> trim_prefix env self fr' rest layer lp path st'' = (st', Next s))"
proof -
  obtain fr2 c2 where r: "restore_url fr (ctx st) = (fr2, c2)"
    by (cases "restore_url fr (ctx st)") blast
  then have v2: "vals fr2 = vals fr" by (rule restore_url_vals)
  show ?thesis
  proof (cases "stack = [] \<or> signal = Some ''router'' \<or> getPathname env c2 = None")
    case True
    with assms r have "router_done fr2 (st\<lparr>ctx := c2\<rparr>) = (st', Next s)"
      by (subst (asm) router_next.simps) (auto split: option.splits)
    with v2 show ?thesis by blast
  next
    case False
    then obtain path where p: "getPathname env c2 = Some path" by auto
    obtain opts evs fnd where f: "find_layer env path (ctx_query c2) (ctx_method c2) stack (frame_options fr2) = (opts, evs, fnd)"
      by (cases "find_layer env path (ctx_query c2) (ctx_method c2) stack (frame_options fr2)") auto
    from assms r False p f
    have eq: "(case fnd of
        Raised e \<Rightarrow> (st\<lparr>ctx := c2, log := log st @ evs\<rparr>, Throw e)
      | NotFound \<Rightarrow> router_done (fr2\<lparr>frame_options := opts\<rparr>) (st\<lparr>ctx := c2, log := log st @ evs\<rparr>)
      | Found layer rest \<Rightarrow>
          (case process_params self layer (paramcalled fr2)
                  (st\<lparr>ctx := capture self fr2 layer c2, log := log st @ evs\<rparr>) of
             (cd, st4, Next paramSignal) \<Rightarrow>
               if truthy paramSignal then
                 router_next env self (fr2\<lparr>frame_options := opts, paramcalled := cd\<rparr>)
                   rest paramSignal st4
               else if layer_route layer \<noteq> None then
                 (case handle_request layer st4 of
                    (st5, Next signal') \<Rightarrow>
                      router_next env self (fr2\<lparr>frame_options := opts, paramcalled := cd\<rparr>)
                        rest signal' st5
                  | (st5, NoNext) \<Rightarrow> (st5, NoNext)
                  | (st5, Throw e) \<Rightarrow> (st5, Throw e))
               else
                 (case layer_path layer of
                    None \<Rightarrow>
                      (st4, Throw (TypeError ''Cannot read property length of undefined''))
                  | Some layerPath \<Rightarrow>
                      trim_prefix env self (fr2\<lparr>frame_options := opts, paramcalled := cd\<rparr>)
                        rest layer layerPath path st4)
           | (cd, st4, NoNext) \<Rightarrow> (st4, NoNext)
           | (cd, st4, Throw e) \<Rightarrow> (st4, Throw e))) = (st', Next s)"
      by (subst (asm) router_next.simps) simp
    show ?thesis
    proof (cases fnd)
      case (Raised e)
      with eq show ?thesis by simp
    next
      case NotFound
      with eq v2 have "vals (fr2\<lparr>frame_options := opts\<rparr>) = vals fr
        \<and> router_done (fr2\<lparr>frame_options := opts\<rparr>) (st\<lparr>ctx := c2, log := log st @ evs\<rparr>) = (st', Next s)"
        by simp
      then show ?thesis by blast
    next
      case (Found layer rest)
      with f have len: "length rest < length stack" by (auto dest: find_layer_rest)
      obtain cd st4 out where pp: "process_params self layer (paramcalled fr2)
                  (st\<lparr>ctx := capture self fr2 layer c2, log := log st @ evs\<rparr>) = (cd, st4, out)"
        by (cases "process_params self layer (paramcalled fr2)
                  (st\<lparr>ctx := capture self fr2 layer c2, log := log st @ evs\<rparr>)") auto
      let ?fr = "fr2\<lparr>frame_options := opts, paramcalled := cd\<rparr>"
      have v: "vals ?fr = vals fr" using v2 by simp
      from eq Found pp obtain ps where out: "out = Next ps"
        by (cases out) auto
      show ?thesis
      proof (cases "truthy ps")
        case True
        with eq Found pp out have "router_next env self ?fr rest ps st4 = (st', Next s)" by simp
        with v len show ?thesis by blast
      next
        case nt: False
        show ?thesis
        proof (cases "layer_route layer")
          case (Some R)
          with eq Found pp out nt obtain st5 sig' where
            "router_next env self ?fr rest sig' st5 = (st', Next s)"
            by (auto split: prod.splits outcome.splits)
          with v len show ?thesis by blast
        next
          case None
          with eq Found pp out nt obtain lp where
            "trim_prefix env self ?fr rest layer lp path st4 = (st', Next s)"
            by (auto split: option.splits)
          with v len show ?thesis by blast
        qed
      qed
    qed
  qed
qed

lemma trim_prefix_unfold:
  assumes "trim_prefix env self fr rest layer lp path st = (st', Next s)"
  shows "\<exists>fr' sig' st''. vals fr' = vals fr
          \<and> router_next env self fr' rest sig' st'' = (st', Next s)"
proof -
  obtain fr' c' where t: "trim_url fr lp (ctx st) = (fr', c')"
    by (cases "trim_url fr lp (ctx st)") blast
  then have v: "vals fr' = vals fr" by (rule trim_url_vals)
  from assms t have "(\<exists>sig' st''. router_next env self fr rest sig' st'' = (st', Next s))
      \<or> (\<exists>sig' st''. router_next env self fr' rest sig' st'' = (st', Next s))"
    by (subst (asm) trim_prefix.simps) (auto split: if_splits prod.splits outcome.splits)
  with v show ?thesis by metis
qed

lemma router_next_restored:
  "router_next env self fr stack signal st = (st', Next s) \<Longrightarrow> s = None \<and> restored fr st'"
proof (induction "length stack" arbitrary: fr stack signal st rule: less_induct)
  case less
  from router_next_unfold [OF less.prems]
  consider (leave) fr2 st2 where "vals fr2 = vals fr" "router_done fr2 st2 = (st', Next s)"
    | (again) fr' rest sig' st'' where "vals fr' = vals fr" "length rest < length stack"
        "router_next env self fr' rest sig' st'' = (st', Next s)"
    | (trim) fr' rest layer lp path st'' where "vals fr' = vals fr" "length rest < length stack"
        "trim_prefix env self fr' rest layer lp path st'' = (st', Next s)"
    by blast
  then show ?case
  proof cases
    case leave
    then show ?thesis
      using router_done_restored [of fr2 st2 st' "Next s"] by (simp add: restored_def)
  next
    case again
    from less.hyps [OF again(2) again(3)] again(1) show ?thesis
      by (simp add: restored_def)
  next
    case trim
    from trim_prefix_unfold [OF trim(3)] obtain fr'' sig' st3
      where v: "vals fr'' = vals fr'"
        and r: "router_next env self fr'' rest sig' st3 = (st', Next s)" by blast
    from less.hyps [OF trim(2) r] v trim(1) show ?thesis
      by (simp add: restored_def)
  qed
qed

lemma router_next_exits:
  assumes "restore_url fr (ctx st) = (fr2, c2)"
    and "stack = [] \<or> signal = Some ''router'' \<or> getPathname env c2 = None"
  shows "router_next env self fr stack signal st = router_done fr2 (st\<lparr>ctx := c2\<rparr>)"
  using assms by (subst router_next.simps) (auto split: option.splits)

lemma router_next_not_found:
  assumes "restore_url fr (ctx st) = (fr2, c2)"
    and "signal \<noteq> Some ''router''"
    and "getPathname env c2 = Some path"
    and "find_layer env path (ctx_query c2) (ctx_method c2) stack (frame_options fr2)
           = (opts, evs, NotFound)"
  shows "router_next env self fr stack signal st
           = router_done (fr2\<lparr>frame_options := opts\<rparr>) (st\<lparr>ctx := c2, log := log st @ evs\<rparr>)"
proof (cases "stack = []")
  case True
  with assms(4) have "opts = frame_options fr2" "evs = []" by simp_all
  with True assms(1) show ?thesis by (subst router_next.simps) simp
next
  case False
  with assms show ?thesis by (subst router_next.simps) simp
qed

text \<open>
  C8: whenever \<open>Router.handle\<close> calls its continuation, it calls it without a signal
  and with \<open>baseUrl\<close>, \<open>params\<close> and \<open>next\<close> of the context equal to their values at
  entry. Each way out of the Router (the scan exhausted, the pathname undetermined, a
  \<open>"router"\<close> signal, no layer matching) calls the continuation with the fields saved
  in the frame restored.
\<close>

theorem handle_restores:
  "(handle env self st = (st', Next s)
      \<longrightarrow> s = None
          \<and> ctx_baseUrl (ctx st') = ctx_baseUrl (ctx st)
          \<and> ctx_params (ctx st') = ctx_params (ctx st)
          \<and> ctx_next (ctx st') = ctx_next (ctx st))
   \<and> (stack = [] \<or> signal = Some ''router''
        \<or> getPathname env (snd (restore_url fr (ctx st))) = None
        \<or> (\<exists>path. getPathname env (snd (restore_url fr (ctx st))) = Some path
              \<and> snd (snd (find_layer env path (ctx_query (snd (restore_url fr (ctx st))))
                             (ctx_method (snd (restore_url fr (ctx st)))) stack
                             (frame_options (fst (restore_url fr (ctx st)))))) = NotFound)
      \<longrightarrow> (\<exists>st''. router_next env self fr stack signal st = (st'', Next None)
                 \<and> (ctx_baseUrl (ctx st''), ctx_params (ctx st''), ctx_next (ctx st'')) = vals fr))"
proof -
  have a: "s = None \<and> ctx_baseUrl (ctx st') = ctx_baseUrl (ctx st)
      \<and> ctx_params (ctx st') = ctx_params (ctx st) \<and> ctx_next (ctx st') = ctx_next (ctx st)"
    if "handle env self st = (st', Next s)"
    using router_next_restored [OF that [unfolded handle_def Let_def]]
    by (simp add: restored_def)
  have b: "\<exists>st''. router_next env self fr stack signal st = (st'', Next None)
                 \<and> (ctx_baseUrl (ctx st''), ctx_params (ctx st''), ctx_next (ctx st'')) = vals fr"
    if h: "stack = [] \<or> signal = Some ''router''
        \<or> getPathname env (snd (restore_url fr (ctx st))) = None
        \<or> (\<exists>path. getPathname env (snd (restore_url fr (ctx st))) = Some path
              \<and> snd (snd (find_layer env path (ctx_query (snd (restore_url fr (ctx st))))
                             (ctx_method (snd (restore_url fr (ctx st)))) stack
                             (frame_options (fst (restore_url fr (ctx st)))))) = NotFound)"
  proof -
    obtain fr2 c2 where r: "restore_url fr (ctx st) = (fr2, c2)"
      by (cases "restore_url fr (ctx st)") blast
    have "\<exists>fr3 st3. router_next env self fr stack signal st = router_done fr3 st3"
    proof (cases "stack = [] \<or> signal = Some ''router'' \<or> getPathname env c2 = None")
      case True
      from router_next_exits [OF r True] show ?thesis by blast
    next
      case False
      with h r obtain path opts evs where "getPathname env c2 = Some path"
        "find_layer env path (ctx_query c2) (ctx_method c2) stack (frame_options fr2)
           = (opts, evs, NotFound)"
        by (auto simp: prod_eq_iff)
      from router_next_not_found [OF r _ this] False show ?thesis by blast
    qed
    then obtain fr3 st3 where d: "router_next env self fr stack signal st = router_done fr3 st3"
      by blast
    obtain st'' out where o: "router_done fr3 st3 = (st'', out)"
      by (cases "router_done fr3 st3") blast
    with router_done_restored [OF o] have n: "router_next env self fr stack signal st = (st'', Next None)"
      using d by simp
    from router_next_restored [OF n] show ?thesis using n by (auto simp: restored_def)
  qed
  from a b show ?thesis by blast
qed

theorem handle_restores_witness:
  "snd (handle sample_env foo_router sample_state) = Next None
   \<and> ctx_body (ctx (fst (handle sample_env foo_router sample_state))) = Some ''/bar?x=1''
   \<and> ctx_baseUrl (ctx (fst (handle sample_env foo_router sample_state))) = Some ''/api''
   \<and> ctx_params (ctx (fst (handle sample_env foo_router sample_state)))
       = Some [(Name ''outer'', Some ''1'')]
   \<and> ctx_next (ctx (fst (handle sample_env foo_router sample_state))) = Some (Given 0)
   \<and> snd (router_next sample_env foo_router empty_frame [foo_layer] (Some ''router'') sample_state)
       = Next None
   \<and> ctx_baseUrl (ctx (fst (router_next sample_env foo_router empty_frame [foo_layer]
                               (Some ''router'') sample_state))) = Some ''/api''"
proof -
  have n: "snd (handle sample_env foo_router sample_state) = Next None" by code_simp
  have body: "ctx_body (ctx (fst (handle sample_env foo_router sample_state))) = Some ''/bar?x=1''"
    by code_simp
  obtain st' where h: "handle sample_env foo_router sample_state = (st', Next None)"
    using n by (cases "handle sample_env foo_router sample_state") auto
  have entry: "ctx_baseUrl (ctx sample_state) = Some ''/api''"
    "ctx_params (ctx sample_state) = Some [(Name ''outer'', Some ''1'')]"
    "ctx_next (ctx sample_state) = Some (Given 0)"
    by (simp_all add: sample_state_def sample_ctx_def)
  from handle_restores [of sample_env foo_router sample_state st' None] h
  have a: "ctx_baseUrl (ctx st') = ctx_baseUrl (ctx sample_state)
      \<and> ctx_params (ctx st') = ctx_params (ctx sample_state)
      \<and> ctx_next (ctx st') = ctx_next (ctx sample_state)"
    by blast
  from handle_restores [of sample_env foo_router sample_state st' None "[foo_layer]"
      "Some ''router''" empty_frame]
  obtain st'' where b: "router_next sample_env foo_router empty_frame [foo_layer] (Some ''router'')
      sample_state = (st'', Next None)"
    "(ctx_baseUrl (ctx st''), ctx_params (ctx st''), ctx_next (ctx st'')) = vals empty_frame"
    by blast
  from a b n body show ?thesis by (simp add: h entry empty_frame_def)
qed

text \<open>
  C2, as stated, fails: after the automatic OPTIONS response is written the
  continuation is still called. For \<open>router.get('/', h)\<close> and the request \<open>OPTIONS /\<close>
  the header and the body are \<open>GET,HEAD\<close> and the continuation is called.
\<close>

theorem options_continues_counterexample:
  "ctx_method (ctx options_state) = ''OPTIONS''
   \<and> ctx_allow (ctx (fst (handle sample_env get_router options_state))) = Some ''GET,HEAD''
   \<and> ctx_body (ctx (fst (handle sample_env get_router options_state))) = Some ''GET,HEAD''
   \<and> snd (handle sample_env get_router options_state) = Next None"
  by code_simp

text \<open>
  C2, amended: when the scan of \<open>Router.handle\<close> finds no matching layer, the saved
  context fields are restored and the original continuation is called without a signal,
  in every case; when the request verb is OPTIONS and at least one verb was accumulated
  from the Routes that do not handle it, the Allow header and the body are set to the
  comma-joined accumulated verbs before that. Nothing else of the context changes but
  \<open>originalUrl\<close>, which is set once.
\<close>

theorem handle_no_match:
  assumes path: "parseUrl_pathname env (ctx_url (ctx st)) = Some path"
    and scan: "find_layer env path (ctx_query (ctx st)) (ctx_method (ctx st)) (router_stack self) []
                 = (opts, evs, NotFound)"
  shows "handle env self st =
           (st\<lparr>ctx :=
                (if ctx_method (ctx st) = ''OPTIONS'' \<and> opts \<noteq> []
                 then (ctx st)\<lparr>ctx_allow := Some (join opts), ctx_body := Some (join opts)\<rparr>
                 else ctx st)
                \<lparr>ctx_originalUrl :=
                   (if truthy (ctx_originalUrl (ctx st)) then ctx_originalUrl (ctx st)
                    else Some (ctx_url (ctx st)))\<rparr>,
               log := log st @ evs,
               closures := Suc (closures st)\<rparr>,
            Next None)"
proof -
  let ?fr = "\<lparr>removed = [], slashAdded = False,
                protohost = (case getProtohost (ctx_url (ctx st)) of None \<Rightarrow> [] | Some p \<Rightarrow> p),
                paramcalled = [], frame_options = [],
                parentParams = ctx_params (ctx st),
                parentUrl = (case ctx_baseUrl (ctx st) of None \<Rightarrow> [] | Some b \<Rightarrow> b),
                vals = (ctx_baseUrl (ctx st), ctx_params (ctx st), ctx_next (ctx st))\<rparr>"
  let ?c = "(ctx st)\<lparr>ctx_next := Some (RouterNext (closures st)),
                  ctx_baseUrl := Some (parentUrl ?fr),
                  ctx_originalUrl :=
                    (if truthy (ctx_originalUrl (ctx st)) then ctx_originalUrl (ctx st)
                     else Some (ctx_url (ctx st)))\<rparr>"
  let ?st = "st\<lparr>ctx := ?c, closures := Suc (closures st)\<rparr>"
  have h: "handle env self st = router_next env self ?fr (router_stack self) None ?st"
    by (simp add: handle_def Let_def)
  have r: "restore_url ?fr (ctx ?st) = (?fr, ?c)"
    by (simp add: restore_url_def)
  have p: "getPathname env ?c = Some path"
    using path by (simp add: getPathname_def)
  have f: "find_layer env path (ctx_query ?c) (ctx_method ?c) (router_stack self) (frame_options ?fr)
      = (opts, evs, NotFound)"
    using scan by simp
  have "router_next env self ?fr (router_stack self) None ?st
      = router_done (?fr\<lparr>frame_options := opts\<rparr>) (?st\<lparr>ctx := ?c, log := log ?st @ evs\<rparr>)"
    by (rule router_next_not_found [OF r _ p f]) simp
  then show ?thesis
    unfolding h by (simp add: router_done_def setOptionsResponse_def Let_def)
qed

theorem handle_no_match_witness:
  "parseUrl_pathname sample_env (ctx_url (ctx options_state)) = Some ''/''
   \<and> find_layer sample_env ''/'' (ctx_query (ctx options_state)) (ctx_method (ctx options_state))
        (router_stack get_router) [] = ([''GET'', ''HEAD''], [], NotFound)
   \<and> snd (handle sample_env get_router options_state) = Next None
   \<and> ctx_allow (ctx (fst (handle sample_env get_router options_state))) = Some ''GET,HEAD''
   \<and> ctx_next (ctx (fst (handle sample_env get_router options_state))) = None"
proof -
  have p: "parseUrl_pathname sample_env (ctx_url (ctx options_state)) = Some ''/''"
    by code_simp
  have f1: "fst (find_layer sample_env ''/'' (ctx_query (ctx options_state))
        (ctx_method (ctx options_state)) (router_stack get_router) []) = [''GET'', ''HEAD'']"
    by code_simp
  have f2: "fst (snd (find_layer sample_env ''/'' (ctx_query (ctx options_state))
        (ctx_method (ctx options_state)) (router_stack get_router) [])) = []"
    by code_simp
  have f3: "(case snd (snd (find_layer sample_env ''/'' (ctx_query (ctx options_state))
        (ctx_method (ctx options_state)) (router_stack get_router) [])) of
          NotFound \<Rightarrow> True | _ \<Rightarrow> False)"
    by code_simp
  have f: "find_layer sample_env ''/'' (ctx_query (ctx options_state))
        (ctx_method (ctx options_state)) (router_stack get_router) []
      = ([''GET'', ''HEAD''], [], NotFound)"
    using f1 f2 f3
    by (cases "find_layer sample_env ''/'' (ctx_query (ctx options_state))
        (ctx_method (ctx options_state)) (router_stack get_router) []")
       (auto split: found.splits)
  from handle_no_match [OF p f] p f show ?thesis
    by (simp add: options_state_def)
qed

text \<open>
  C6: for a middleware layer matched with a non-empty prefix, \<open>trim_prefix\<close> rejects
  the match when the character that follows the prefix in the path is present and is
  neither \<open>/\<close> nor \<open>.\<close>: the scan resumes at the next index with the state unchanged,
  and the handler is not invoked. Otherwise the prefix is trimmed from the url (a leading
  slash is put back when the url has no scheme and host) and the handler is invoked. So
  the prefix \<open>/foo\<close> is rejected for the path \<open>/foobar\<close>.
\<close>

theorem trim_prefix_boundary:
  assumes "layerPath \<noteq> []"
  shows
    "(length layerPath < length path
        \<and> path ! length layerPath \<noteq> CHR ''/'' \<and> path ! length layerPath \<noteq> CHR ''.''
      \<longrightarrow> trim_prefix env self fr rest layer layerPath path st
            = router_next env self fr rest None st)
     \<and> (length path \<le> length layerPath
          \<or> path ! length layerPath = CHR ''/'' \<or> path ! length layerPath = CHR ''.''
        \<longrightarrow> trim_prefix env self fr rest layer layerPath path st
              = (case handle_request layer (st\<lparr>ctx := snd (trim_url fr layerPath (ctx st))\<rparr>) of
                   (st'', Next signal') \<Rightarrow>
                     router_next env self (fst (trim_url fr layerPath (ctx st))) rest signal' st''
                 | (st'', NoNext) \<Rightarrow> (st'', NoNext)
                 | (st'', Throw e) \<Rightarrow> (st'', Throw e))
            \<and> ctx_url (snd (trim_url fr layerPath (ctx st)))
                = (if protohost fr = []
                      \<and> (drop (length layerPath) (ctx_url (ctx st)) = []
                          \<or> hd (drop (length layerPath) (ctx_url (ctx st))) \<noteq> CHR ''/'')
                   then CHR ''/'' # drop (length layerPath) (ctx_url (ctx st))
                   else protohost fr
                          @ drop (length (protohost fr) + length layerPath) (ctx_url (ctx st))))
     \<and> trim_prefix env self fr rest layer ''/foo'' ''/foobar'' st
          = router_next env self fr rest None st"
proof -
  have a: "trim_prefix env self fr rest layer layerPath path st
            = router_next env self fr rest None st"
    if "length layerPath < length path
        \<and> path ! length layerPath \<noteq> CHR ''/'' \<and> path ! length layerPath \<noteq> CHR ''.''"
    using that assms by (subst trim_prefix.simps) (simp add: breaks_inside_def)
  have b: "trim_prefix env self fr rest layer layerPath path st
              = (case handle_request layer (st\<lparr>ctx := snd (trim_url fr layerPath (ctx st))\<rparr>) of
                   (st'', Next signal') \<Rightarrow>
                     router_next env self (fst (trim_url fr layerPath (ctx st))) rest signal' st''
                 | (st'', NoNext) \<Rightarrow> (st'', NoNext)
                 | (st'', Throw e) \<Rightarrow> (st'', Throw e))"
    if "length path \<le> length layerPath
          \<or> path ! length layerPath = CHR ''/'' \<or> path ! length layerPath = CHR ''.''"
    using that assms
    by (subst trim_prefix.simps) (auto simp: breaks_inside_def case_prod_beta)
  have c: "ctx_url (snd (trim_url fr layerPath (ctx st)))
                = (if protohost fr = []
                      \<and> (drop (length layerPath) (ctx_url (ctx st)) = []
                          \<or> hd (drop (length layerPath) (ctx_url (ctx st))) \<noteq> CHR ''/'')
                   then CHR ''/'' # drop (length layerPath) (ctx_url (ctx st))
                   else protohost fr
                          @ drop (length (protohost fr) + length layerPath) (ctx_url (ctx st)))"
    by (auto simp: trim_url_def Let_def)
  have d: "trim_prefix env self fr rest layer ''/foo'' ''/foobar'' st
          = router_next env self fr rest None st"
    by (subst trim_prefix.simps) (simp add: breaks_inside_def)
  from a b c d show ?thesis by blast
qed

theorem trim_prefix_boundary_witness:
  "trim_prefix sample_env foo_router empty_frame [] foo_layer ''/foo'' ''/foobar'' foobar_state
     = router_next sample_env foo_router empty_frame [] None foobar_state
   \<and> log (fst (trim_prefix sample_env foo_router empty_frame [] foo_layer ''/foo'' ''/foobar''
                  foobar_state)) = []
   \<and> log (fst (handle sample_env foo_router foobar_state)) = []
   \<and> ctx_body (ctx (fst (handle sample_env foo_router foobar_state))) = None
   \<and> snd (handle sample_env foo_router foobar_state) = Next None
   \<and> log (fst (trim_prefix sample_env foo_router empty_frame [] foo_layer ''/foo'' ''/foo/bar?x=1''
                  sample_state)) = [Invoked ''seen'']
   \<and> ctx_body (ctx (fst (trim_prefix sample_env foo_router empty_frame [] foo_layer ''/foo''
                            ''/foo/bar?x=1'' sample_state))) = Some ''/bar?x=1''"
proof -
  have ne: "''/foo'' \<noteq> []" by simp
  from trim_prefix_boundary [OF ne, of "''/foobar''" sample_env foo_router empty_frame "[]"
      foo_layer foobar_state]
  have a: "trim_prefix sample_env foo_router empty_frame [] foo_layer ''/foo'' ''/foobar'' foobar_state
     = router_next sample_env foo_router empty_frame [] None foobar_state"
    by simp
  have b: "log (fst (router_next sample_env foo_router empty_frame [] None foobar_state)) = []"
    by code_simp
  have c: "log (fst (handle sample_env foo_router foobar_state)) = []"
    "ctx_body (ctx (fst (handle sample_env foo_router foobar_state))) = None"
    "snd (handle sample_env foo_router foobar_state) = Next None"
    by code_simp+
  from trim_prefix_boundary [OF ne, of "''/foo/bar?x=1''" sample_env foo_router empty_frame "[]"
      foo_layer sample_state]
  have d: "trim_prefix sample_env foo_router empty_frame [] foo_layer ''/foo'' ''/foo/bar?x=1''
      sample_state
    = (case handle_request foo_layer
              (sample_state\<lparr>ctx := snd (trim_url empty_frame ''/foo'' (ctx sample_state))\<rparr>) of
         (st'', Next signal') \<Rightarrow>
           router_next sample_env foo_router (fst (trim_url empty_frame ''/foo'' (ctx sample_state)))
             [] signal' st''
       | (st'', NoNext) \<Rightarrow> (st'', NoNext)
       | (st'', Throw e) \<Rightarrow> (st'', Throw e))"
    by simp
  have e: "log (fst (case handle_request foo_layer
              (sample_state\<lparr>ctx := snd (trim_url empty_frame ''/foo'' (ctx sample_state))\<rparr>) of
         (st'', Next signal') \<Rightarrow>
           router_next sample_env foo_router (fst (trim_url empty_frame ''/foo'' (ctx sample_state)))
             [] signal' st''
       | (st'', NoNext) \<Rightarrow> (st'', NoNext)
       | (st'', Throw e) \<Rightarrow> (st'', Throw e))) = [Invoked ''seen'']"
    "ctx_body (ctx (fst (case handle_request foo_layer
              (sample_state\<lparr>ctx := snd (trim_url empty_frame ''/foo'' (ctx sample_state))\<rparr>) of
         (st'', Next signal') \<Rightarrow>
           router_next sample_env foo_router (fst (trim_url empty_frame ''/foo'' (ctx sample_state)))
             [] signal' st''
       | (st'', NoNext) \<Rightarrow> (st'', NoNext)
       | (st'', Throw e) \<Rightarrow> (st'', Throw e)))) = Some ''/bar?x=1''"
    by code_simp+
  from a b c d e show ?thesis by simp
qed

section \<open>Properties of the continuation signals\<close>

lemma routeNext_route: "routeNext env stack method (Some ''route'') st = (st, Next None)"
  by (cases stack) (simp_all add: truthy_def)

lemma routeNext_router:
  "routeNext env stack method (Some ''router'') st = (st, Next (Some ''router''))"
  by (cases stack) (simp_all add: truthy_def)

lemma routeNext_handler:
  assumes "\<not> (truthy (layer_method layer) \<and> layer_method layer \<noteq> Some method)"
    and "queryMatch env layer (Some (ctx_query (ctx st))) = (Inr True, evs)"
    and "handle_request layer (st\<lparr>log := log st @ evs\<rparr>) = (st', Next signal')"
  shows "routeNext env (layer # rest) method None st = routeNext env rest method signal' st'"
  using assms by (auto simp: truthy_def)

lemma router_next_router:
  "router_next env self fr stack (Some ''router'') st = router_next env self fr [] None st"
  by (subst router_next.simps, subst (2) router_next.simps) (simp split: prod.splits)

text \<open>
  C1: in the walk of \<open>Route.dispatch\<close>, the continuation given to a layer's handler
  resumes the walk at the next layer with the signal it is called with. Called with
  \<open>"route"\<close> it abandons the remaining layers and calls the Route's continuation
  without a signal; called with \<open>"router"\<close> it abandons them and calls the Route's
  continuation with \<open>"router"\<close>. The Router's \<open>router_next\<close>, called with \<open>"router"\<close>,
  does what it does when no layer is left: it visits no further layer, restores the saved
  fields and calls the Router's continuation without a signal.
\<close>

theorem continuation_signals:
  "routeNext env stack verb (Some ''route'') st = (st, Next None)
   \<and> routeNext env stack verb (Some ''router'') st = (st, Next (Some ''router''))
   \<and> (\<not> (truthy (layer_method layer) \<and> layer_method layer \<noteq> Some verb)
        \<and> queryMatch env layer (Some (ctx_query (ctx st))) = (Inr True, evs)
        \<and> handle_request layer (st\<lparr>log := log st @ evs\<rparr>) = (st', Next signal')
      \<longrightarrow> routeNext env (layer # rest) verb None st = routeNext env rest verb signal' st'
          \<and> (signal' = Some ''route''
               \<longrightarrow> routeNext env (layer # rest) verb None st = (st', Next None))
          \<and> (signal' = Some ''router''
               \<longrightarrow> routeNext env (layer # rest) verb None st = (st', Next (Some ''router''))))
   \<and> router_next env self fr rstack (Some ''router'') rst = router_next env self fr [] None rst
   \<and> (\<exists>rst'. router_next env self fr rstack (Some ''router'') rst = (rst', Next None)
              \<and> (ctx_baseUrl (ctx rst'), ctx_params (ctx rst'), ctx_next (ctx rst')) = vals fr)"
proof -
  have adv: "routeNext env (layer # rest) verb None st = routeNext env rest verb signal' st'
          \<and> (signal' = Some ''route''
               \<longrightarrow> routeNext env (layer # rest) verb None st = (st', Next None))
          \<and> (signal' = Some ''router''
               \<longrightarrow> routeNext env (layer # rest) verb None st = (st', Next (Some ''router'')))"
    if "\<not> (truthy (layer_method layer) \<and> layer_method layer \<noteq> Some verb)
        \<and> queryMatch env layer (Some (ctx_query (ctx st))) = (Inr True, evs)
        \<and> handle_request layer (st\<lparr>log := log st @ evs\<rparr>) = (st', Next signal')"
  proof -
    from that have "routeNext env (layer # rest) verb None st
        = routeNext env rest verb signal' st'"
      by (intro routeNext_handler) blast+
    then show ?thesis by (simp add: routeNext_route routeNext_router)
  qed
  obtain fr2 c2 where r: "restore_url fr (ctx rst) = (fr2, c2)"
    by (cases "restore_url fr (ctx rst)") blast
  have "router_next env self fr rstack (Some ''router'') rst = router_done fr2 (rst\<lparr>ctx := c2\<rparr>)"
    by (rule router_next_exits [OF r]) simp
  moreover obtain rst' out where d: "router_done fr2 (rst\<lparr>ctx := c2\<rparr>) = (rst', out)"
    by (cases "router_done fr2 (rst\<lparr>ctx := c2\<rparr>)") blast
  ultimately have n: "router_next env self fr rstack (Some ''router'') rst = (rst', Next None)"
    using router_done_restored [OF d] by simp
  from router_next_restored [OF n]
  have "(ctx_baseUrl (ctx rst'), ctx_params (ctx rst'), ctx_next (ctx rst')) = vals fr"
    by (simp add: restored_def)
  with n have ex: "\<exists>rst'. router_next env self fr rstack (Some ''router'') rst = (rst', Next None)
              \<and> (ctx_baseUrl (ctx rst'), ctx_params (ctx rst'), ctx_next (ctx rst')) = vals fr"
    by blast
  from adv ex show ?thesis
    using routeNext_route [of env stack verb st] routeNext_router [of env stack verb st]
      router_next_router [of env self fr rstack rst]
    by blast
qed

lemma signalling_layer_simps:
  "layer_method (signalling_layer name sig) = Some ''get''"
  "layer_query (signalling_layer name sig) = None"
  "layer_handle (signalling_layer name sig) = Middleware 2 (\<lambda>c. (c, Next sig))"
  by (simp_all add: signalling_layer_def new_Layer_def sample_reflect_def)

theorem continuation_signals_witness:
  "snd (routeNext sample_env
          [signalling_layer ''first'' (Some ''route''), signalling_layer ''second'' None]
          ''get'' None root_state) = Next None
   \<and> log (fst (dispatch sample_env (signal_route None) root_state))
       = [Invoked ''first'', Invoked ''second'']
   \<and> log (fst (dispatch sample_env (signal_route (Some ''route'')) root_state))
       = [Invoked ''first'']
   \<and> snd (dispatch sample_env (signal_route (Some ''route'')) root_state) = Next None
   \<and> log (fst (dispatch sample_env (signal_route (Some ''router'')) root_state))
       = [Invoked ''first'']
   \<and> snd (dispatch sample_env (signal_route (Some ''router'')) root_state)
       = Next (Some ''router'')
   \<and> log (fst (handle sample_env (signal_router (Some ''route'')) root_state))
       = [Invoked ''bound dispatch'', Invoked ''first'', Invoked ''after'']
   \<and> log (fst (handle sample_env (signal_router (Some ''router'')) root_state))
       = [Invoked ''bound dispatch'', Invoked ''first'']
   \<and> snd (handle sample_env (signal_router (Some ''router'')) root_state) = Next None"
proof -
  let ?L = "signalling_layer ''first'' (Some ''route'')"
  let ?st = "root_state\<lparr>log := log root_state @ []\<rparr>"
  have m: "\<not> (truthy (layer_method ?L) \<and> layer_method ?L \<noteq> Some ''get'')"
    by (simp add: signalling_layer_simps)
  have q: "queryMatch sample_env ?L (Some (ctx_query (ctx root_state))) = (Inr True, [])"
    by (simp add: queryMatch_def signalling_layer_simps)
  have h: "handle_request ?L ?st = (fst (handle_request ?L ?st), Next (Some ''route''))"
    by (simp add: handle_request_def signalling_layer_simps)
  from continuation_signals [where env = sample_env and verb = "''get''" and layer = ?L
      and st = root_state and evs = "[]" and st' = "fst (handle_request ?L ?st)"
      and signal' = "Some ''route''" and rest = "[signalling_layer ''second'' None]"]
    m q h
  have "routeNext sample_env [?L, signalling_layer ''second'' None] ''get'' None root_state
      = (fst (handle_request ?L ?st), Next None)"
    by blast
  then have a: "snd (routeNext sample_env [?L, signalling_layer ''second'' None] ''get'' None
      root_state) = Next None"
    by simp
  have b: "log (fst (dispatch sample_env (signal_route None) root_state))
       = [Invoked ''first'', Invoked ''second'']"
    "log (fst (dispatch sample_env (signal_route (Some ''route'')) root_state))
       = [Invoked ''first'']"
    "snd (dispatch sample_env (signal_route (Some ''route'')) root_state) = Next None"
    "log (fst (dispatch sample_env (signal_route (Some ''router'')) root_state))
       = [Invoked ''first'']"
    "snd (dispatch sample_env (signal_route (Some ''router'')) root_state)
       = Next (Some ''router'')"
    by code_simp+
  have c: "log (fst (handle sample_env (signal_router (Some ''route'')) root_state))
       = [Invoked ''bound dispatch'', Invoked ''first'', Invoked ''after'']"
    "log (fst (handle sample_env (signal_router (Some ''router'')) root_state))
       = [Invoked ''bound dispatch'', Invoked ''first'']"
    "snd (handle sample_env (signal_router (Some ''router'')) root_state) = Next None"
    by code_simp+
  from a b c show ?thesis by simp
qed

section \<open>Properties of the parameter callbacks\<close>





















section \<open>Properties of registration\<close>

lemma mountable_Cons:
  "mountable path (fn # fns) \<Longrightarrow> mountable path fns"
  by (auto simp: mountable_def split: arg.splits)

lemma use_loop_rejects:
  "list_all is_function pre \<Longrightarrow> \<not> is_function bad \<Longrightarrow> mountable path pre
    \<Longrightarrow> snd (use_loop rf path query (pre @ bad # post) self)
        = Some (TypeError (use_message (inspect rf bad)))"
proof (induction pre arbitrary: self)
  case Nil
  then show ?case
    by (cases bad) (simp_all add: is_function_def)
next
  case (Cons fn pre)
  from Cons.prems(1) obtain fname f pfx where fn: "fn = AFunction fname f pfx"
    by (cases fn) (simp_all add: is_function_def)
  have m: "mountable path pre" using Cons.prems(3) by (rule mountable_Cons)
  have ok: "pfx = None \<or> (\<exists>p. path = AString p)"
    using Cons.prems(3) fn by (cases path; cases pfx) (simp_all add: mountable_def)
  from Cons.prems(1) have all: "list_all is_function pre" by simp
  from ok show ?case
    using Cons.IH [OF all Cons.prems(2) m] fn
    by (auto simp: Let_def split: option.splits)
qed

lemma use_loop_accepts:
  "list_all is_function fns
    \<Longrightarrow> snd (use_loop rf path query fns self) = None
        \<or> snd (use_loop rf path query fns self)
            = Some (TypeError ''prefixedPath.endsWith is not a function'')"
proof (induction fns arbitrary: self)
  case Nil
  then show ?case by simp
next
  case (Cons fn fns)
  from Cons.prems obtain fname f pfx where fn: "fn = AFunction fname f pfx"
    by (cases fn) (simp_all add: is_function_def)
  from Cons.prems have all: "list_all is_function fns" by simp
  show ?case
    using Cons.IH [OF all] fn
    by (cases pfx; cases path) (simp_all add: Let_def)
qed

lemma use_loop_mounts:
  "list_all is_function fns \<Longrightarrow> mountable path fns
    \<Longrightarrow> snd (use_loop rf path query fns self) = None"
proof (induction fns arbitrary: self)
  case Nil
  then show ?case by simp
next
  case (Cons fn fns)
  from Cons.prems(1) obtain fname f pfx where fn: "fn = AFunction fname f pfx"
    by (cases fn) (simp_all add: is_function_def)
  from Cons.prems(1) have all: "list_all is_function fns" by simp
  have m: "mountable path fns" using Cons.prems(2) by (rule mountable_Cons)
  have ok: "pfx = None \<or> (\<exists>p. path = AString p)"
    using Cons.prems(2) fn by (cases path; cases pfx) (simp_all add: mountable_def)
  from ok show ?case
    using Cons.IH [OF all m] fn by (auto simp: Let_def split: option.splits)
qed

lemma method_loop_rejects:
  "list_all is_function pre \<Longrightarrow> \<not> is_function bad
    \<Longrightarrow> snd (method_loop rf methodName query (pre @ bad # post) R)
        = Some (TypeError (method_message methodName (inspect rf bad)))"
proof (induction pre arbitrary: R)
  case Nil
  then show ?case
    by (cases bad) (simp_all add: is_function_def)
next
  case (Cons fn pre)
  from Cons.prems(1) obtain fname f pfx where fn: "fn = AFunction fname f pfx"
    by (cases fn) (simp_all add: is_function_def)
  from Cons.prems(1) have all: "list_all is_function pre" by simp
  show ?case
    using Cons.IH [OF all Cons.prems(2)] fn by (simp add: Let_def)
qed

lemma method_loop_accepts:
  "list_all is_function fns \<Longrightarrow> snd (method_loop rf methodName query fns R) = None"
proof (induction fns arbitrary: R)
  case Nil
  then show ?case by simp
next
  case (Cons fn fns)
  from Cons.prems obtain fname f pfx where fn: "fn = AFunction fname f pfx"
    by (cases fn) (simp_all add: is_function_def)
  from Cons.prems have all: "list_all is_function fns" by simp
  show ?case
    using Cons.IH [OF all] fn by (simp add: Let_def)
qed

text \<open>
  The check that registration makes of its middleware arguments. Those of \<open>Router.use\<close>
  are the arguments after the optional path and the optional query, flattened; those of
  \<open>Route.method\<close> (and so of every verb method) the arguments after the optional query.
  In \<open>Route.method\<close>, an argument that is not callable makes the call itself return the
  TypeError that names the rendered first such value, and callable arguments give no
  error. In \<open>Router.use\<close> the same holds as long as the loop does not meet, before the
  offending argument, a mounted Router with a prefix under a path that is not a string.
\<close>

lemma registration_check:
  "(\<forall>path query pre bad post.
       use_arguments middlewares = (path, query, pre @ bad # post)
       \<and> list_all is_function pre \<and> \<not> is_function bad \<and> mountable path pre
     \<longrightarrow> snd (use rf middlewares self) = Some (TypeError (use_message (inspect rf bad))))
   \<and> (\<forall>path query fns v.
         use_arguments middlewares = (path, query, fns) \<and> list_all is_function fns
       \<longrightarrow> snd (use rf middlewares self) \<noteq> Some (TypeError (use_message (inspect rf v)))
           \<and> (fns \<noteq> [] \<and> mountable path fns \<longrightarrow> snd (use rf middlewares self) = None))
   \<and> (\<forall>query pre bad post.
         shift_query handlers = (query, pre @ bad # post)
         \<and> list_all is_function pre \<and> \<not> is_function bad
       \<longrightarrow> snd (Route_method rf methodName handlers R)
             = Some (TypeError (method_message methodName (inspect rf bad))))
   \<and> (\<forall>query fns.
         shift_query handlers = (query, fns) \<and> list_all is_function fns
       \<longrightarrow> snd (Route_method rf methodName handlers R) = None)"
proof -
  have a: "snd (use rf middlewares self) = Some (TypeError (use_message (inspect rf bad)))"
    if "use_arguments middlewares = (path, query, pre @ bad # post)
       \<and> list_all is_function pre \<and> \<not> is_function bad \<and> mountable path pre"
    for path query pre bad post
    using that by (simp add: use_def use_loop_rejects)
  have b: "snd (use rf middlewares self) \<noteq> Some (TypeError (use_message (inspect rf v)))
           \<and> (fns \<noteq> [] \<and> mountable path fns \<longrightarrow> snd (use rf middlewares self) = None)"
    if h: "use_arguments middlewares = (path, query, fns) \<and> list_all is_function fns"
    for path query fns v
  proof (cases "fns = []")
    case True
    with h show ?thesis by (simp add: use_def use_message_def)
  next
    case False
    from h have "snd (use_loop rf path query fns self) = None
        \<or> snd (use_loop rf path query fns self)
            = Some (TypeError ''prefixedPath.endsWith is not a function'')"
      by (simp add: use_loop_accepts)
    moreover have "mountable path fns \<longrightarrow> snd (use_loop rf path query fns self) = None"
      using h by (simp add: use_loop_mounts)
    ultimately show ?thesis
      using h False by (auto simp: use_def use_message_def)
  qed
  have c: "snd (Route_method rf methodName handlers R)
             = Some (TypeError (method_message methodName (inspect rf bad)))"
    if "shift_query handlers = (query, pre @ bad # post)
         \<and> list_all is_function pre \<and> \<not> is_function bad"
    for query pre bad post
    using that by (simp add: Route_method_def method_loop_rejects)
  have d: "snd (Route_method rf methodName handlers R) = None"
    if "shift_query handlers = (query, fns) \<and> list_all is_function fns" for query fns
    using that by (simp add: Route_method_def method_loop_accepts)
  from a b c d show ?thesis by blast
qed

lemma registration_check_examples:
  "snd (use sample_reflect [AString ''/'', AOther True, AString ''foo'']
          (new_Router False False False None))
     = Some (TypeError (''Router.use() requires a middleware function but got a ''
                          @ [CHR 0x27] @ ''foo'' @ [CHR 0x27]))
   \<and> snd (use sample_reflect [AString ''/'', sample_fn] (new_Router False False False None))
       = None
   \<and> snd (Route_all sample_reflect [AOther True, AString ''not a function''] (new_Route ''/foo''))
       = Some (TypeError (''Route.all() requires callback functions but got a ''
                            @ [CHR 0x27] @ ''not a function'' @ [CHR 0x27]))
   \<and> snd (Route_all sample_reflect [AOther False] (new_Route ''/foo''))
       = Some (TypeError ''Route.all() requires callback functions but got a null'')
   \<and> snd (Route_get sample_reflect [sample_fn, sample_fn] (new_Route ''/foo'')) = None"
proof -
  have fn: "is_function sample_fn" by (simp add: sample_fn_def is_function_def)
  have u1: "use_arguments [AString ''/'', AOther True, AString ''foo'']
      = (AString ''/'', Some (AOther True), [] @ AString ''foo'' # [])"
    by (simp add: use_arguments_def is_path_def shift_query_def js_truthy_def is_function_def)
  have u2: "use_arguments [AString ''/'', sample_fn] = (AString ''/'', None, [sample_fn])"
    by (simp add: use_arguments_def is_path_def shift_query_def js_truthy_def sample_fn_def
        is_function_def)
  have r1: "shift_query [AOther True, AString ''not a function'']
      = (Some (AOther True), [] @ AString ''not a function'' # [])"
    by (simp add: shift_query_def js_truthy_def is_function_def)
  have r2: "shift_query [AOther False] = (None, [] @ AOther False # [])"
    by (simp add: shift_query_def js_truthy_def is_function_def)
  have r3: "shift_query [sample_fn, sample_fn] = (None, [sample_fn, sample_fn])"
    by (simp add: shift_query_def js_truthy_def sample_fn_def is_function_def)
  have nf: "\<not> is_function (AString t)" "\<not> is_function (AOther b)" for t b
    by (simp_all add: is_function_def)
  have la: "list_all is_function []" "list_all is_function [sample_fn]"
    "list_all is_function [sample_fn, sample_fn]"
    using fn by simp_all
  have mo: "mountable (AString ''/'') fns" for fns
    by (simp add: mountable_def)
  have shown: "inspect sample_reflect (AString t) = [CHR 0x27] @ t @ [CHR 0x27]"
    "inspect sample_reflect (AOther False) = ''null''" for t
    by (simp_all add: sample_reflect_def)
  have a: "snd (use sample_reflect [AString ''/'', AOther True, AString ''foo'']
          (new_Router False False False None))
     = Some (TypeError (use_message (inspect sample_reflect (AString ''foo''))))"
    using registration_check [where middlewares = "[AString ''/'', AOther True, AString ''foo'']"
        and rf = sample_reflect and self = "new_Router False False False None",
        THEN conjunct1, rule_format,
        of "AString ''/''" "Some (AOther True)" "[]" "AString ''foo''" "[]"]
      u1 nf mo
    by simp
  have b: "snd (use sample_reflect [AString ''/'', sample_fn] (new_Router False False False None))
       = None"
    using registration_check [where middlewares = "[AString ''/'', sample_fn]"
        and rf = sample_reflect and self = "new_Router False False False None",
        THEN conjunct2, THEN conjunct1, rule_format,
        of "AString ''/''" None "[sample_fn]"]
      u2 la mo
    by simp
  have c: "snd (Route_method sample_reflect ''_all'' [AOther True, AString ''not a function'']
      (new_Route ''/foo''))
    = Some (TypeError (method_message ''_all'' (inspect sample_reflect (AString ''not a function''))))"
    using registration_check [where handlers = "[AOther True, AString ''not a function'']"
        and rf = sample_reflect and methodName = "''_all''" and R = "new_Route ''/foo''",
        THEN conjunct2, THEN conjunct2, THEN conjunct1, rule_format,
        of "Some (AOther True)" "[]" "AString ''not a function''" "[]"]
      r1 nf
    by simp
  have d: "snd (Route_method sample_reflect ''_all'' [AOther False] (new_Route ''/foo''))
    = Some (TypeError (method_message ''_all'' (inspect sample_reflect (AOther False))))"
    using registration_check [where handlers = "[AOther False]"
        and rf = sample_reflect and methodName = "''_all''" and R = "new_Route ''/foo''",
        THEN conjunct2, THEN conjunct2, THEN conjunct1, rule_format,
        of None "[]" "AOther False" "[]"]
      r2 nf
    by simp
  have e: "snd (Route_method sample_reflect ''get'' [sample_fn, sample_fn] (new_Route ''/foo''))
    = None"
    using registration_check [where handlers = "[sample_fn, sample_fn]"
        and rf = sample_reflect and methodName = "''get''" and R = "new_Route ''/foo''",
        THEN conjunct2, THEN conjunct2, THEN conjunct2, rule_format,
        of None "[sample_fn, sample_fn]"]
      r3 la
    by simp
  from a b c d e show ?thesis
    by (simp add: use_message_def method_message_def shown Route_all_def Route_get_def)
qed

text \<open>
  C9 at \<open>router.use(/^\/re/, sub.routes(), 'foo')\<close>, where \<open>sub\<close> is a Router with the
  prefix \<open>/api\<close>: the last argument is not callable, and the call throws, but not the
  error that names \<open>'foo'\<close>. The loop of \<open>Router.use\<close> reaches the mounted Router first
  and calls \<open>endsWith\<close> on the path to append the prefix; the path is a regular
  expression, which has no such function, and that TypeError ends the call.
\<close>

theorem use_regexp_prefix_throws:
  "\<not> is_function (AString ''foo'')
   \<and> snd (use sample_reflect [ARegExp ''^/re'', prefixed_router, AString ''foo'']
            (new_Router False False False None))
       = Some (TypeError ''prefixedPath.endsWith is not a function'')
   \<and> snd (use sample_reflect [ARegExp ''^/re'', prefixed_router, AString ''foo'']
            (new_Router False False False None))
       \<noteq> Some (TypeError (use_message (inspect sample_reflect (AString ''foo''))))
   \<and> snd (use sample_reflect [AString ''/re'', prefixed_router, AString ''foo'']
            (new_Router False False False None))
       = Some (TypeError (use_message (inspect sample_reflect (AString ''foo''))))"
  by (simp add: use_def use_arguments_def is_path_def shift_query_def js_truthy_def
      is_function_def prefixed_router_def routes_def new_Router_def truthy_def Let_def
      use_message_def)

end
